theory Spec2Isabelle
  imports Main "HOL-Library.Sublist"
begin

section \<open>Values shared by the packages\<close>

text \<open>
  A Go \<open>error\<close> is modelled by its message, so \<open>fmt.Errorf("ctx: %w", err)\<close> is the
  context string followed by the message of the wrapped error. A function returning
  \<open>(T, error)\<close> returns \<open>error + T\<close>; one returning only \<open>error\<close> returns
  \<open>error option\<close>, \<open>None\<close> being \<open>nil\<close>.
\<close>

type_synonym error = string
type_synonym bytes = string

text \<open>
  The manifest (\<open>Index\<close>) with the fields that the code below reads or writes, and the
  lock snapshot (\<open>IndexLock\<close>). \<open>Packages\<close> is a Go map from source name to lock entry;
  it is kept as an association list whose order stands for the order in which
  \<open>range\<close> happens to yield the entries, and it is read by key with \<open>map_of\<close>.
\<close>

record Index =
  AppCode :: string
  RamlxVersion :: string
  Entities :: "string list"
  Dictionaries :: "string list"
  Depends :: "string list"
  Serialized :: "string list"
  FilePath :: string
  idx_BaseDir :: string

record PackageLock =
  lock_AppCode :: string
  lock_Depends :: "string list"

record IndexLock =
  Version :: string
  Packages :: "(string \<times> PackageLock) list"

text \<open>
  What \<open>parser.ParsePackage\<close> returns, as far as \<open>pacman.go\<close> reads it: the base directory
  and the registry with its type table (read by key only), its instances and the total
  entity list (both in the order \<open>range\<close> yields them). An entity carries its identifier,
  its values and, for a type, the annotations by key, again in the order of one
  \<open>range\<close> over the Go map. \<open>Asset\<close> is a pointer: \<open>None\<close> is \<open>nil\<close>.
\<close>

record Annotation =
  Asset :: "bool option"

record Entity =
  Cti :: string
  Values :: string
  Annotations :: "(string \<times> Annotation) list"

record CtiRegistry =
  Types :: "string \<rightharpoonup> Entity"
  Instances :: "Entity list"
  Total :: "Entity list"

record ParsedPackage =
  Registry :: CtiRegistry
  parsed_BaseDir :: string

text \<open>The bundle archive: the entries written so far, each with its name and bytes.\<close>

type_synonym archive = "(string \<times> bytes) list"

record PackageManager =
  Index :: Index
  IndexLock :: IndexLock
  PackageCacheDir :: string
  DependenciesDir :: string
  BaseDir :: string

text \<open>
  Reading a Go map at a key it does not hold yields the zero value of the element type.
\<close>

definition zero_PackageLock :: PackageLock where
  "zero_PackageLock = \<lparr>lock_AppCode = [], lock_Depends = []\<rparr>"

definition lookupPackage :: "IndexLock \<Rightarrow> string \<Rightarrow> PackageLock" where
  "lookupPackage l k = (case map_of (Packages l) k of None \<Rightarrow> zero_PackageLock | Some e \<Rightarrow> e)"

section \<open>Collaborators of the package manager\<close>

text \<open>
  Every call that leaves \<open>pacman.go\<close> is recorded, in order, in a list of \<open>call\<close>s. A
  collaborator is a function of the calls made so far (its outcome may depend on
  everything that happened before) and of its arguments.
\<close>

datatype call =
    DownloadCall "string list" bool
  | rewriteDepLinksCall string string
  | BuildPackageCacheCall string
  | SaveIndexCall Index
  | SaveIndexLockCall IndexLock
  | ParsePackageCall string
  | DumpCacheCall
  | AddEntitiesCall
  | ReadIndexFileCall string
  | AddFromFileCall string
  | ValidateAllCall

text \<open>
  The functions, methods and constants that \<open>pacman.go\<close> uses and that are declared in
  other files: the dependency spec parser, the resolver \<open>Download\<close> (it returns the
  installed source names and the set of superseded names, or fails; it is given the
  lock snapshot and returns it with what it resolved, and does not write the manifest),
  the link rewriter, the cache builder, the two
  \<open>Save\<close> methods behind \<open>SaveIndex\<close> and \<open>SaveIndexLock\<close>, \<open>filepath.Join\<close> on two
  elements, and the two file name constants; for \<open>Validate\<close> the parser, the cache
  dump, the validator's three methods and \<open>ReadIndexFile\<close>; for \<open>Pack\<close> the lookup of
  a parent type identifier, the reading of an entity's value at an annotation key as a
  string, the file system (\<open>os.Create\<close> of the archive, and \<open>os.OpenFile\<close> read-only, which
  yields the bytes a later \<open>io.Copy\<close> reads), the zip writer (each of its operations may
  fail, depending on the entries written so far), and three methods of the manifest.
\<close>

record collab =
  ParseIndexDependency :: "string \<Rightarrow> string \<times> string"
  Download :: "call list \<Rightarrow> IndexLock \<Rightarrow> string list \<Rightarrow> bool
                 \<Rightarrow> IndexLock \<times> (error + string list \<times> string set)"
  rewriteDepLinks :: "call list \<Rightarrow> string \<Rightarrow> string \<Rightarrow> error option"
  BuildPackageCache :: "call list \<Rightarrow> string \<Rightarrow> error option"
  Index_Save :: "call list \<Rightarrow> Index \<Rightarrow> string \<Rightarrow> error option"
  IndexLock_Save :: "call list \<Rightarrow> IndexLock \<Rightarrow> string \<Rightarrow> error option"
  Join :: "string \<Rightarrow> string \<Rightarrow> string"
  IndexFileName :: string
  MetadataCacheFile :: string
  ParsePackage :: "call list \<Rightarrow> string \<Rightarrow> error + ParsedPackage"
  DumpCache :: "call list \<Rightarrow> ParsedPackage \<Rightarrow> error option"
  AddEntities :: "call list \<Rightarrow> Entity list \<Rightarrow> error option"
  ReadIndexFile :: "call list \<Rightarrow> string \<Rightarrow> error + Index"
  AddFromFile :: "call list \<Rightarrow> string \<Rightarrow> error option"
  ValidateAll :: "call list \<Rightarrow> error list"
  GetParentCti :: "string \<Rightarrow> string"
  GetValue :: "string \<Rightarrow> string \<Rightarrow> string"
  os_Create :: "string \<Rightarrow> error option"
  OpenFile :: "string \<Rightarrow> error + bytes"
  zip_Create :: "archive \<Rightarrow> string \<Rightarrow> error option"
  io_Copy :: "archive \<Rightarrow> string \<Rightarrow> bytes \<Rightarrow> error option"
  zip_Write :: "archive \<Rightarrow> string \<Rightarrow> bytes \<Rightarrow> error option"
  Clone :: "Index \<Rightarrow> Index"
  PutSerialized :: "Index \<Rightarrow> string \<Rightarrow> Index"
  ToBytes :: "Index \<Rightarrow> bytes"

text \<open>
  Modelled from the spec: \<open>ParseIndexDependency\<close> is declared in another file of the
  package.
  The spec (4.1) has it parse a \<open>name\<close> or \<open>name@version\<close> string into the pair of name
  and version, with an empty version when there is none. This instance is used where a
  concrete parser is needed; the theorems hold for every parser.
\<close>

definition ParseIndexDependency_spec :: "string \<Rightarrow> string \<times> string" where
  "ParseIndexDependency_spec dep =
     (takeWhile (\<lambda>ch. ch \<noteq> CHR ''@'') dep, drop 1 (dropWhile (\<lambda>ch. ch \<noteq> CHR ''@'') dep))"

section \<open>The installer\<close>

subsection \<open>SaveIndex and SaveIndexLock (bundle.go)\<close>

text \<open>
  \<open>pacman.go\<close> calls these two methods on its package value, whose type is declared
  in another package; they are taken to be the methods of the same names of \<open>Bundle\<close>,
  on the manifest, lock snapshot and base directory of the package manager.
\<close>

definition SaveIndexLock :: "collab \<Rightarrow> PackageManager \<Rightarrow> call list \<Rightarrow> error option \<times> call list" where
  "SaveIndexLock c pm log =
     (case IndexLock_Save c log (IndexLock pm) (BaseDir pm) of
        Some err \<Rightarrow> (Some (''save index lock: '' @ err), log @ [SaveIndexLockCall (IndexLock pm)])
      | None \<Rightarrow> (None, log @ [SaveIndexLockCall (IndexLock pm)]))"

definition SaveIndex :: "collab \<Rightarrow> PackageManager \<Rightarrow> call list \<Rightarrow> error option \<times> call list" where
  "SaveIndex c pm log =
     (case Index_Save c log (Index pm) (BaseDir pm) of
        Some err \<Rightarrow> (Some (''save index: '' @ err), log @ [SaveIndexCall (Index pm)])
      | None \<Rightarrow> (None, log @ [SaveIndexCall (Index pm)]))"

subsection \<open>processInstalledDependencies\<close>

text \<open>The inner loop over \<open>pkgLock.Depends\<close>.\<close>

fun rewriteLinks ::
  "collab \<Rightarrow> PackageManager \<Rightarrow> string \<Rightarrow> call list \<Rightarrow> string list \<Rightarrow> error option \<times> call list"
where
  "rewriteLinks c pm pkgPath log [] = (None, log)"
| "rewriteLinks c pm pkgPath log (dep # deps) =
     (let depSourceName = fst (ParseIndexDependency c dep);
          depPkgLock = lookupPackage (IndexLock pm) depSourceName
      in case rewriteDepLinks c log pkgPath (lock_AppCode depPkgLock) of
           Some err \<Rightarrow>
             (Some (''failed to rewrite dependency links: '' @ err),
              log @ [rewriteDepLinksCall pkgPath (lock_AppCode depPkgLock)])
         | None \<Rightarrow>
             rewriteLinks c pm pkgPath
               (log @ [rewriteDepLinksCall pkgPath (lock_AppCode depPkgLock)]) deps)"

fun processInstalledDependencies ::
  "collab \<Rightarrow> PackageManager \<Rightarrow> call list \<Rightarrow> string list \<Rightarrow> error option \<times> call list"
where
  "processInstalledDependencies c pm log [] = (None, log)"
| "processInstalledDependencies c pm log (sourceName # rest) =
     (let pkgLock = lookupPackage (IndexLock pm) sourceName;
          pkgPath = Join c (DependenciesDir pm) (lock_AppCode pkgLock)
      in case rewriteLinks c pm pkgPath log (lock_Depends pkgLock) of
           (Some err, log1) \<Rightarrow> (Some err, log1)
         | (None, log1) \<Rightarrow>
             (case BuildPackageCache c log1 (Join c pkgPath (IndexFileName c)) of
                Some err \<Rightarrow>
                  (Some (''failed to build cache: '' @ err),
                   log1 @ [BuildPackageCacheCall (Join c pkgPath (IndexFileName c))])
              | None \<Rightarrow>
                  processInstalledDependencies c pm
                    (log1 @ [BuildPackageCacheCall (Join c pkgPath (IndexFileName c))]) rest))"

subsection \<open>installDependencies\<close>

definition installDependencies ::
  "collab \<Rightarrow> PackageManager \<Rightarrow> call list \<Rightarrow> string list \<Rightarrow> bool
     \<Rightarrow> (error + string list \<times> string set) \<times> PackageManager \<times> call list"
where
  "installDependencies c pm log depends replace =
     (case Download c log (IndexLock pm) depends replace of
        (lock1, Inl err) \<Rightarrow>
          (Inl (''failed to download dependencies: '' @ err),
           pm\<lparr>IndexLock := lock1\<rparr>, log @ [DownloadCall depends replace])
      | (lock1, Inr (installed, replaced)) \<Rightarrow>
          (case processInstalledDependencies c (pm\<lparr>IndexLock := lock1\<rparr>)
                  (log @ [DownloadCall depends replace]) installed of
             (Some err, log2) \<Rightarrow>
               (Inl (''failed to process installed dependencies: '' @ err),
                pm\<lparr>IndexLock := lock1\<rparr>, log2)
           | (None, log2) \<Rightarrow> (Inr (installed, replaced), pm\<lparr>IndexLock := lock1\<rparr>, log2)))"

subsection \<open>InstallNewDependencies\<close>

text \<open>
  The first loop keeps the manifest entries whose parsed name is not a key of
  \<open>replaced\<close>; the second appends each requested spec that no manifest entry equals as
  a string.
\<close>

definition dropReplaced :: "collab \<Rightarrow> string set \<Rightarrow> string list \<Rightarrow> string list" where
  "dropReplaced c replaced idxDepends =
     filter (\<lambda>idxDepName. fst (ParseIndexDependency c idxDepName) \<notin> replaced) idxDepends"

fun addDirect :: "string list \<Rightarrow> string list \<Rightarrow> string list" where
  "addDirect idxDepends [] = idxDepends"
| "addDirect idxDepends (depName # rest) =
     addDirect (if depName \<in> set idxDepends then idxDepends else idxDepends @ [depName]) rest"

definition mergeDepends :: "collab \<Rightarrow> string set \<Rightarrow> string list \<Rightarrow> string list \<Rightarrow> string list" where
  "mergeDepends c replaced idxDepends depends =
     addDirect (if replaced \<noteq> {} then dropReplaced c replaced idxDepends else idxDepends) depends"

definition InstallNewDependencies ::
  "collab \<Rightarrow> PackageManager \<Rightarrow> call list \<Rightarrow> string list \<Rightarrow> bool
     \<Rightarrow> (error + string list) \<times> PackageManager \<times> call list"
where
  "InstallNewDependencies c pm log depends replace =
     (case installDependencies c pm log depends replace of
        (Inl err, pm1, log1) \<Rightarrow> (Inl (''failed to install dependencies: '' @ err), pm1, log1)
      | (Inr (installed, replaced), pm1, log1) \<Rightarrow>
          (let pm2 = pm1\<lparr>Index := (Index pm1)
                      \<lparr>Depends := mergeDepends c replaced (Depends (Index pm1)) depends\<rparr>\<rparr>
           in case SaveIndex c pm2 log1 of
                (Some err, log2) \<Rightarrow> (Inl (''failed to save index: '' @ err), pm2, log2)
              | (None, log2) \<Rightarrow>
                  (case SaveIndexLock c pm2 log2 of
                     (Some err, log3) \<Rightarrow> (Inl (''failed to save index lock: '' @ err), pm2, log3)
                   | (None, log3) \<Rightarrow> (Inr installed, pm2, log3))))"

definition InstallIndexDependencies ::
  "collab \<Rightarrow> PackageManager \<Rightarrow> call list \<Rightarrow> (error + string list) \<times> PackageManager \<times> call list"
where
  "InstallIndexDependencies c pm log =
     (case installDependencies c pm log (Depends (Index pm)) False of
        (Inl err, pm1, log1) \<Rightarrow>
          (Inl (''failed to install index dependencies: '' @ err), pm1, log1)
      | (Inr (installed, replaced), pm1, log1) \<Rightarrow>
          (case SaveIndexLock c pm1 log1 of
             (Some err, log2) \<Rightarrow> (Inl (''failed to save index lock: '' @ err), pm1, log2)
           | (None, log2) \<Rightarrow> (Inr installed, pm1, log2)))"

subsection \<open>The post-processing pipeline as a sequence of calls\<close>

text \<open>
  The calls \<open>processInstalledDependencies\<close> makes for one installed dependency when
  nothing fails: one link rewrite per transitive dependency, then the cache build.
  \<open>runCalls\<close> makes a list of such calls in order and stops at the first that fails.
\<close>

definition pipelineCalls :: "collab \<Rightarrow> PackageManager \<Rightarrow> string \<Rightarrow> call list" where
  "pipelineCalls c pm sourceName =
     (let pkgLock = lookupPackage (IndexLock pm) sourceName;
          pkgPath = Join c (DependenciesDir pm) (lock_AppCode pkgLock)
      in map (\<lambda>dep. rewriteDepLinksCall pkgPath
                 (lock_AppCode (lookupPackage (IndexLock pm) (fst (ParseIndexDependency c dep)))))
           (lock_Depends pkgLock)
         @ [BuildPackageCacheCall (Join c pkgPath (IndexFileName c))])"

fun callOutcome :: "collab \<Rightarrow> call list \<Rightarrow> call \<Rightarrow> error option" where
  "callOutcome c log (rewriteDepLinksCall pkgPath appCode) = rewriteDepLinks c log pkgPath appCode"
| "callOutcome c log (BuildPackageCacheCall file) = BuildPackageCache c log file"
| "callOutcome c log other = None"

fun callPrefix :: "call \<Rightarrow> string" where
  "callPrefix (rewriteDepLinksCall pkgPath appCode) = ''failed to rewrite dependency links: ''"
| "callPrefix (BuildPackageCacheCall file) = ''failed to build cache: ''"
| "callPrefix other = []"

fun runCalls :: "collab \<Rightarrow> call list \<Rightarrow> call list \<Rightarrow> error option \<times> call list" where
  "runCalls c log [] = (None, log)"
| "runCalls c log (k # ks) =
     (case callOutcome c log k of
        Some err \<Rightarrow> (Some (callPrefix k @ err), log @ [k])
      | None \<Rightarrow> runCalls c (log @ [k]) ks)"

text \<open>The calls that persist the manifest or the lock snapshot.\<close>

fun isSave :: "call \<Rightarrow> bool" where
  "isSave (SaveIndexCall idx) = True"
| "isSave (SaveIndexLockCall lock) = True"
| "isSave other = False"

section \<open>The validator orchestrator\<close>

text \<open>
  The loop of \<open>Validate\<close> over the packages of the lock snapshot. It returns \<open>Some\<close> of
  the error list with which \<open>Validate\<close> returns from inside the loop, or \<open>None\<close> when the loop
  ends. \<open>filepath.Join\<close> on three elements is the join of the first two joined with
  the third.
\<close>

fun addLockedPackages ::
  "collab \<Rightarrow> PackageManager \<Rightarrow> call list \<Rightarrow> (string \<times> PackageLock) list
     \<Rightarrow> error list option \<times> call list"
where
  "addLockedPackages c pm log [] = (None, log)"
| "addLockedPackages c pm log ((sourceName, dep) # rest) =
     (let idxFile = Join c (Join c (DependenciesDir pm) (lock_AppCode dep)) (IndexFileName c)
      in case ReadIndexFile c log idxFile of
           Inl err \<Rightarrow>
             (Some [''failed to read index file for '' @ lock_AppCode dep @ '': '' @ err],
              log @ [ReadIndexFileCall idxFile])
         | Inr idx \<Rightarrow>
             (let cacheFile = Join c (idx_BaseDir idx) (MetadataCacheFile c);
                  log1 = log @ [ReadIndexFileCall idxFile]
              in case AddFromFile c log1 cacheFile of
                   Some err \<Rightarrow>
                     (Some [''failed to add entities from '' @ MetadataCacheFile c @ '': '' @ err],
                      log1 @ [AddFromFileCall cacheFile])
                 | None \<Rightarrow> addLockedPackages c pm (log1 @ [AddFromFileCall cacheFile]) rest))"

definition Validate :: "collab \<Rightarrow> PackageManager \<Rightarrow> call list \<Rightarrow> error list \<times> call list" where
  "Validate c pm log =
     (case ParsePackage c log (FilePath (Index pm)) of
        Inl err \<Rightarrow>
          ([''failed to parse package: '' @ err], log @ [ParsePackageCall (FilePath (Index pm))])
      | Inr p \<Rightarrow>
          (let log1 = log @ [ParsePackageCall (FilePath (Index pm))]
           in case DumpCache c log1 p of
                Some err \<Rightarrow> ([''failed to dump cache: '' @ err], log1 @ [DumpCacheCall])
              | None \<Rightarrow>
                  (case AddEntities c (log1 @ [DumpCacheCall]) (Total (Registry p)) of
                     Some err \<Rightarrow>
                       ([''failed to add entities: '' @ err], log1 @ [DumpCacheCall, AddEntitiesCall])
                   | None \<Rightarrow>
                       (case addLockedPackages c pm (log1 @ [DumpCacheCall, AddEntitiesCall])
                               (Packages (IndexLock pm)) of
                          (Some errs, log2) \<Rightarrow> (errs, log2)
                        | (None, log2) \<Rightarrow> (ValidateAll c log2, log2 @ [ValidateAllCall])))))"

section \<open>The bundle packer\<close>


text \<open>
  The function literal of \<open>Pack\<close> that copies one asset into the archive: open the file
  under the base directory, create the entry, copy the bytes.
\<close>

definition bundleAsset :: "collab \<Rightarrow> ParsedPackage \<Rightarrow> archive \<Rightarrow> string \<Rightarrow> error + archive" where
  "bundleAsset c p ar assetPath =
     (case OpenFile c (Join c (parsed_BaseDir p) assetPath) of
        Inl err \<Rightarrow> Inl (''failed to open asset '' @ assetPath @ '': '' @ err)
      | Inr asset \<Rightarrow>
          (case zip_Create c ar assetPath of
             Some err \<Rightarrow> Inl (''failed to create asset '' @ assetPath @ '' in bundle: '' @ err)
           | None \<Rightarrow>
               (case io_Copy c ar assetPath asset of
                  Some err \<Rightarrow> Inl (''failed to write asset '' @ assetPath @ '' to bundle: '' @ err)
                | None \<Rightarrow> Inr (ar @ [(assetPath, asset)]))))"

text \<open>
  The inner loop of \<open>Pack\<close> over the annotations of an entity's type: \<open>continue\<close> on an
  annotation that is no asset, \<open>break\<close> on an empty asset path.
\<close>

fun packAnnotations ::
  "collab \<Rightarrow> ParsedPackage \<Rightarrow> Entity \<Rightarrow> archive \<Rightarrow> (string \<times> Annotation) list \<Rightarrow> error + archive"
where
  "packAnnotations c p entity ar [] = Inr ar"
| "packAnnotations c p entity ar ((key, annotation) # rest) =
     (if Asset annotation = None then packAnnotations c p entity ar rest
      else (let assetPath = GetValue c key (Values entity)
            in if assetPath = [] then Inr ar
               else (case bundleAsset c p ar assetPath of
                       Inl err \<Rightarrow> Inl (''failed to bundle asset '' @ assetPath @ '': '' @ err)
                     | Inr ar1 \<Rightarrow> packAnnotations c p entity ar1 rest)))"

text \<open>The outer loop over the instances of the registry.\<close>

fun packEntities :: "collab \<Rightarrow> ParsedPackage \<Rightarrow> archive \<Rightarrow> Entity list \<Rightarrow> error + archive" where
  "packEntities c p ar [] = Inr ar"
| "packEntities c p ar (entity # rest) =
     (case Types (Registry p) (GetParentCti c (Cti entity)) of
        None \<Rightarrow> Inl (''type '' @ Cti entity @ '' not found'')
      | Some typ \<Rightarrow>
          (case packAnnotations c p entity ar (Annotations typ) of
             Inl err \<Rightarrow> Inl err
           | Inr ar1 \<Rightarrow> packEntities c p ar1 rest))"



subsection \<open>What the scan of one entity visits\<close>





section \<open>The bundle (bundle.go)\<close>

text \<open>
  A dictionary \<open>Entry\<close> is a JSON object of strings, \<open>Dictionaries\<close> is a struct around one
  Go map from language code to entry; \<open>None\<close> is the \<open>nil\<close> map of the struct's zero
  value, \<open>Some Map.empty\<close> the map that \<open>make\<close> returns.
\<close>

type_synonym LangCode = string
type_synonym Entry = "(string \<times> string) list"
type_synonym Dictionaries = "(LangCode \<rightharpoonup> Entry) option"

record Bundle =
  bundle_Index :: Index
  bundle_IndexLock :: IndexLock
  bundle_Registry :: "CtiRegistry option"
  bundle_BaseDir :: string

text \<open>
  What \<open>GetDictionaries\<close> uses from outside the file: \<open>os.Open\<close> (it yields the bytes the
  decoder then reads), \<open>path.Join\<close>, the JSON decoder, and \<open>filesys.GetBaseName\<close>.
\<close>

record dict_io =
  os_Open :: "string \<Rightarrow> error + bytes"
  path_Join :: "string \<Rightarrow> string \<Rightarrow> string"
  Decode :: "bytes \<Rightarrow> error + Entry"
  GetBaseName :: "string \<Rightarrow> string"

definition validateDictionary :: "dict_io \<Rightarrow> bytes \<Rightarrow> error + Entry" where
  "validateDictionary io input =
     (case Decode io input of
        Inl err \<Rightarrow> Inl (''decode dictionary: '' @ err)
      | Inr config \<Rightarrow> Inr config)"

text \<open>
  The loop of \<open>GetDictionaries\<close>; the name of the opened file is the path it was opened
  with.
\<close>

fun loadDictionaries ::
  "dict_io \<Rightarrow> string \<Rightarrow> (LangCode \<rightharpoonup> Entry) \<Rightarrow> string list \<Rightarrow> error + (LangCode \<rightharpoonup> Entry)"
where
  "loadDictionaries io baseDir dictionaries [] = Inr dictionaries"
| "loadDictionaries io baseDir dictionaries (dict # rest) =
     (case os_Open io (path_Join io baseDir dict) of
        Inl err \<Rightarrow> Inl (''open dictionary file: '' @ err)
      | Inr file \<Rightarrow>
          (case validateDictionary io file of
             Inl err \<Rightarrow> Inl (''validate dictionary: '' @ err)
           | Inr entry \<Rightarrow>
               loadDictionaries io baseDir
                 (dictionaries(GetBaseName io (path_Join io baseDir dict) \<mapsto> entry)) rest))"

definition GetDictionaries :: "dict_io \<Rightarrow> Bundle \<Rightarrow> Dictionaries \<times> error option" where
  "GetDictionaries io b =
     (case loadDictionaries io (bundle_BaseDir b) Map.empty (Dictionaries (bundle_Index b)) of
        Inl err \<Rightarrow> (None, Some err)
      | Inr dictionaries \<Rightarrow> (Some dictionaries, None))"

subsection \<open>One dictionary file\<close>

text \<open>
  What one turn of the loop computes for a listed file: the error it returns with, or
  the key and the entry it stores.
\<close>

definition loadDictionary :: "dict_io \<Rightarrow> string \<Rightarrow> string \<Rightarrow> error + LangCode \<times> Entry" where
  "loadDictionary io baseDir dict =
     (case os_Open io (path_Join io baseDir dict) of
        Inl err \<Rightarrow> Inl (''open dictionary file: '' @ err)
      | Inr file \<Rightarrow>
          (case Decode io file of
             Inl err \<Rightarrow> Inl (''validate dictionary: decode dictionary: '' @ err)
           | Inr entry \<Rightarrow> Inr (GetBaseName io (path_Join io baseDir dict), entry)))"

text \<open>
  The map built from the listed files when each of them loads: of two files with the
  same key the one listed later provides the entry.
\<close>

definition dictionaryMap :: "dict_io \<Rightarrow> string \<Rightarrow> string list \<Rightarrow> (LangCode \<rightharpoonup> Entry)" where
  "dictionaryMap io baseDir dicts =
     map_of (rev (map (\<lambda>dict. projr (loadDictionary io baseDir dict)) dicts))"

section \<open>The file system replace helpers (directory.go)\<close>

subsection \<open>A file system\<close>

text \<open>
  A path is the list of its elements below the root, \<open>[]\<close> being the root, so that
  \<open>filepath.Dir\<close> is \<open>butlast\<close>. A file system is the list of its files and directories
  with their paths, read with \<open>map_of\<close>; symbolic links and special files are not
  modelled. The tree at a path is the map from relative paths to the nodes below it: two
  trees are byte-identical when these maps are equal.
\<close>

type_synonym path = "string list"

datatype node = File bytes | Dir

type_synonym filesystem = "(path \<times> node) list"

definition subtree :: "filesystem \<Rightarrow> path \<Rightarrow> (path \<rightharpoonup> node)" where
  "subtree fs p = (\<lambda>rel. map_of fs (p @ rel))"

definition filepath_Dir :: "path \<Rightarrow> path" where
  "filepath_Dir p = butlast p"

definition showPath :: "path \<Rightarrow> string" where
  "showPath p = (if p = [] then ''/'' else concat (map (\<lambda>name. ''/'' @ name) p))"

text \<open>Every proper prefix of the path of a node is a directory.\<close>

definition wellformed :: "filesystem \<Rightarrow> bool" where
  "wellformed fs =
     list_all (\<lambda>(q, n). list_all (\<lambda>r. r = q \<or> map_of fs r = Some Dir) (prefixes q)) fs"

fun isFile :: "node option \<Rightarrow> bool" where
  "isFile (Some (File content)) = True"
| "isFile other = False"

subsection \<open>The operations of the operating system and of the copy library\<close>

text \<open>
  The functions of \<open>os\<close> and of \<open>github.com/otiai10/copy\<close> that \<open>directory.go\<close> calls, as
  their documentation describes them on a file system without links. Each can fail for
  reasons outside the model (permissions, devices, quotas): the \<open>platform\<close> says when,
  given the file system and the arguments. The platform also decides what \<open>os.Rename\<close>
  does when the new path exists and what \<open>copy.Copy\<close> does when the destination
  directory has content, two cases \<open>directory.go\<close> never reaches. A failed operation
  returns its error only: what it leaves behind is not modelled.
\<close>

record platform =
  Stat_fails :: "filesystem \<Rightarrow> path \<Rightarrow> error option"
  RemoveAll_fails :: "filesystem \<Rightarrow> path \<Rightarrow> error option"
  MkdirAll_fails :: "filesystem \<Rightarrow> path \<Rightarrow> error option"
  Rename_fails :: "filesystem \<Rightarrow> path \<Rightarrow> path \<Rightarrow> error option"
  Rename_onto_existing :: "filesystem \<Rightarrow> path \<Rightarrow> path \<Rightarrow> error + filesystem"
  Copy_fails :: "filesystem \<Rightarrow> path \<Rightarrow> path \<Rightarrow> error option"
  Copy_into_content :: "filesystem \<Rightarrow> path \<Rightarrow> path \<Rightarrow> error + filesystem"

text \<open>
  \<open>os.Stat\<close> returns the node, or an error for which \<open>os.IsNotExist\<close> holds, or another
  error.
\<close>

datatype stat_error = NotExist | OtherError error

fun IsNotExist :: "stat_error \<Rightarrow> bool" where
  "IsNotExist NotExist = True"
| "IsNotExist (OtherError err) = False"

fun Error :: "stat_error \<Rightarrow> string" where
  "Error NotExist = ''no such file or directory''"
| "Error (OtherError err) = err"

definition os_Stat :: "platform \<Rightarrow> filesystem \<Rightarrow> path \<Rightarrow> stat_error + node" where
  "os_Stat pf fs p =
     (case Stat_fails pf fs p of
        Some err \<Rightarrow> Inl (OtherError err)
      | None \<Rightarrow> (case map_of fs p of None \<Rightarrow> Inl NotExist | Some n \<Rightarrow> Inr n))"

text \<open>
  \<open>os.RemoveAll\<close> removes the path and everything below it, and succeeds when the path
  does not exist. The root cannot be removed.
\<close>

definition os_RemoveAll :: "platform \<Rightarrow> filesystem \<Rightarrow> path \<Rightarrow> error + filesystem" where
  "os_RemoveAll pf fs p =
     (case RemoveAll_fails pf fs p of
        Some err \<Rightarrow> Inl err
      | None \<Rightarrow>
          if p = [] then Inl ''device or resource busy''
          else Inr (filter (\<lambda>(q, n). \<not> prefix p q) fs))"

text \<open>
  \<open>os.MkdirAll\<close> creates the directory and the parents it lacks, does nothing when the
  directory exists, and fails when the path or one of its prefixes is a file.
\<close>

definition os_MkdirAll :: "platform \<Rightarrow> filesystem \<Rightarrow> path \<Rightarrow> error + filesystem" where
  "os_MkdirAll pf fs p =
     (case MkdirAll_fails pf fs p of
        Some err \<Rightarrow> Inl err
      | None \<Rightarrow>
          if list_ex (\<lambda>q. isFile (map_of fs q)) (prefixes p) then Inl ''not a directory''
          else Inr (map (\<lambda>q. (q, Dir)) (filter (\<lambda>q. map_of fs q = None) (prefixes p)) @ fs))"

text \<open>
  The tree at \<open>src\<close> with its paths rebased to \<open>dst\<close>.
\<close>

definition rebase :: "path \<Rightarrow> path \<Rightarrow> filesystem \<Rightarrow> filesystem" where
  "rebase src dst fs =
     map (\<lambda>(q, n). (dst @ drop (length src) q, n)) (filter (\<lambda>(q, n). prefix src q) fs)"

text \<open>
  \<open>os.Rename\<close> moves the tree at the old path to the new path. It fails when the old
  path does not exist, when the new path lies inside the old one, when the old path lies
  inside the new one (a directory that is not empty cannot be replaced), and when the
  parent of the new path is no directory.
\<close>

definition os_Rename :: "platform \<Rightarrow> filesystem \<Rightarrow> path \<Rightarrow> path \<Rightarrow> error + filesystem" where
  "os_Rename pf fs src dst =
     (case Rename_fails pf fs src dst of
        Some err \<Rightarrow> Inl err
      | None \<Rightarrow>
          if map_of fs src = None then Inl ''no such file or directory''
          else if strict_prefix src dst then Inl ''invalid argument''
          else if strict_prefix dst src then Inl ''directory not empty''
          else if list_ex (\<lambda>(q, n). prefix dst q) fs then Rename_onto_existing pf fs src dst
          else if map_of fs (butlast dst) \<noteq> Some Dir then Inl ''no such file or directory''
          else Inr (rebase src dst fs @ filter (\<lambda>(q, n). \<not> prefix src q) fs))"

text \<open>
  \<open>copy.Copy\<close> of a file creates the parent of the destination and writes the file there,
  which fails when the destination is a directory. \<open>copy.Copy\<close> of a directory creates
  the destination directory and copies every entry of the source into it, file by file
  and directory by directory. When the destination lies inside the source, the copy
  meets the directory it is filling and descends into it until a path is too long.
\<close>

definition copy_Copy :: "platform \<Rightarrow> filesystem \<Rightarrow> path \<Rightarrow> path \<Rightarrow> error + filesystem" where
  "copy_Copy pf fs src dst =
     (case Copy_fails pf fs src dst of
        Some err \<Rightarrow> Inl err
      | None \<Rightarrow>
          (case map_of fs src of
             None \<Rightarrow> Inl ''no such file or directory''
           | Some (File content) \<Rightarrow>
               (case os_MkdirAll pf fs (butlast dst) of
                  Inl err \<Rightarrow> Inl err
                | Inr fs1 \<Rightarrow>
                    if map_of fs1 dst = Some Dir then Inl ''is a directory''
                    else Inr ((dst, File content) # fs1))
           | Some Dir \<Rightarrow>
               if strict_prefix src dst then Inl ''file name too long''
               else if list_ex (\<lambda>(q, n). strict_prefix dst q) fs then Copy_into_content pf fs src dst
               else (case os_MkdirAll pf fs dst of
                       Inl err \<Rightarrow> Inl err
                     | Inr fs1 \<Rightarrow>
                         Inr (rebase src dst (filter (\<lambda>(q, n). q \<noteq> src) fs) @ fs1))))"

subsection \<open>ReplaceWithCopy and ReplaceWithMove\<close>

definition ReplaceWithCopy :: "platform \<Rightarrow> filesystem \<Rightarrow> path \<Rightarrow> path \<Rightarrow> error + filesystem" where
  "ReplaceWithCopy pf fs src dst =
     (case (case os_Stat pf fs dst of
              Inr info \<Rightarrow>
                (case os_RemoveAll pf fs dst of
                   Inl err \<Rightarrow> Inl (''remove existing bundle: '' @ err)
                 | Inr fs1 \<Rightarrow> Inr fs1)
            | Inl err \<Rightarrow>
                if \<not> IsNotExist err then Inl (''stat '' @ showPath dst @ '': '' @ Error err)
                else Inr fs) of
        Inl err \<Rightarrow> Inl err
      | Inr fs1 \<Rightarrow>
          (case os_MkdirAll pf fs1 dst of
             Inl err \<Rightarrow> Inl (''create parent directory: '' @ err)
           | Inr fs2 \<Rightarrow>
               (case copy_Copy pf fs2 src dst of
                  Inl err \<Rightarrow>
                    Inl (''copy '' @ showPath src @ '' -> '' @ showPath dst @ '': '' @ err)
                | Inr fs3 \<Rightarrow> Inr fs3)))"

definition ReplaceWithMove :: "platform \<Rightarrow> filesystem \<Rightarrow> path \<Rightarrow> path \<Rightarrow> error + filesystem" where
  "ReplaceWithMove pf fs src dst =
     (case os_RemoveAll pf fs dst of
        Inl err \<Rightarrow> Inl (''remove existing dir: '' @ err)
      | Inr fs1 \<Rightarrow>
          (case os_MkdirAll pf fs1 (filepath_Dir dst) of
             Inl err \<Rightarrow> Inl (''create directory: '' @ err)
           | Inr fs2 \<Rightarrow>
               (case os_Rename pf fs2 src dst of
                  Inl err \<Rightarrow>
                    Inl (''move '' @ showPath src @ '' -> '' @ showPath dst @ '': '' @ err)
                | Inr fs3 \<Rightarrow> Inr fs3)))"

section \<open>Concrete collaborators and packages\<close>

text \<open>
  Collaborators that always succeed, and a package that depends on \<open>A@1\<close> and
  \<open>B@1\<close> and has \<open>A\<close>, \<open>B\<close> and \<open>C\<close> in its lock snapshot. The resolver of \<open>collab_ok\<close>
  installs every requested name and, when asked to replace, reports every requested name
  as superseded; \<open>ReadIndexFile\<close> yields a manifest whose base directory is the directory
  of the file read.
\<close>

definition collab_ok :: collab where
  "collab_ok = \<lparr>ParseIndexDependency = ParseIndexDependency_spec,
     Download = (\<lambda>log lock depends replace.
        (lock, Inr (map (fst \<circ> ParseIndexDependency_spec) depends,
                    if replace then set (map (fst \<circ> ParseIndexDependency_spec) depends) else {}))),
     rewriteDepLinks = (\<lambda>log pkgPath appCode. None),
     BuildPackageCache = (\<lambda>log file. None),
     Index_Save = (\<lambda>log idx dir. None),
     IndexLock_Save = (\<lambda>log idx dir. None),
     Join = (\<lambda>a b. a @ ''/'' @ b),
     IndexFileName = ''index.json'',
     MetadataCacheFile = ''.cache.json'',
     ParsePackage = (\<lambda>log file. Inr \<lparr>Registry = \<lparr>Types = Map.empty, Instances = [], Total = []\<rparr>,
                                      parsed_BaseDir = ''/p''\<rparr>),
     DumpCache = (\<lambda>log p. None),
     AddEntities = (\<lambda>log entities. None),
     ReadIndexFile = (\<lambda>log file. Inr \<lparr>AppCode = [], RamlxVersion = [], Entities = [],
        Dictionaries = [], Depends = [], Serialized = [], FilePath = file,
        idx_BaseDir = take (length file - 11) file\<rparr>),
     AddFromFile = (\<lambda>log file. None),
     ValidateAll = (\<lambda>log. []),
     GetParentCti = (\<lambda>cti. rev (drop 1 (dropWhile (\<lambda>ch. ch \<noteq> CHR ''~'') (rev cti)))),
     GetValue = (\<lambda>key values. if key = ''icon'' then values else []),
     os_Create = (\<lambda>file. None),
     OpenFile = (\<lambda>file. Inl ''no such file or directory''),
     zip_Create = (\<lambda>ar name. None),
     io_Copy = (\<lambda>ar name content. None),
     zip_Write = (\<lambda>ar name content. None),
     Clone = (\<lambda>idx. idx),
     PutSerialized = (\<lambda>idx name. idx\<lparr>Serialized := Serialized idx @ [name]\<rparr>),
     ToBytes = (\<lambda>idx. AppCode idx @ '' '' @ concat (Serialized idx))\<rparr>"

definition pm_AB :: PackageManager where
  "pm_AB = \<lparr>Index = \<lparr>AppCode = ''app'', RamlxVersion = ''1.0'', Entities = [], Dictionaries = [],
        Depends = [''A@1'', ''B@1''], Serialized = [], FilePath = ''/p/index.json'',
        idx_BaseDir = ''/p''\<rparr>,
     IndexLock = \<lparr>Version = ''v1'', Packages = [(''A'', \<lparr>lock_AppCode = ''a.app'', lock_Depends = [''B@1'']\<rparr>),
        (''B'', \<lparr>lock_AppCode = ''b.app'', lock_Depends = []\<rparr>),
        (''C'', \<lparr>lock_AppCode = ''c.app'', lock_Depends = []\<rparr>)]\<rparr>,
     PackageCacheDir = ''/cache'', DependenciesDir = ''/p/.dep'', BaseDir = ''/p''\<rparr>"

text \<open>
  A resolver that cannot fetch, a cache builder that fails, and a package whose only
  dependency has the source name \<open>vendor.lib\<close> and the installed identifier \<open>xyz\<close>.
\<close>

definition collab_offline :: collab where
  "collab_offline = collab_ok\<lparr>Download := (\<lambda>log lock depends replace. (lock, Inl ''network unreachable''))\<rparr>"

definition collab_nocache :: collab where
  "collab_nocache = collab_ok\<lparr>BuildPackageCache := (\<lambda>log file. Some ''boom'')\<rparr>"

definition pm_vendor :: PackageManager where
  "pm_vendor = \<lparr>Index = \<lparr>AppCode = ''app'', RamlxVersion = ''1.0'', Entities = [], Dictionaries = [],
        Depends = [''vendor.lib@1''], Serialized = [], FilePath = ''/p/index.json'',
        idx_BaseDir = ''/p''\<rparr>,
     IndexLock = \<lparr>Version = ''v1'',
        Packages = [(''vendor.lib'', \<lparr>lock_AppCode = ''xyz'', lock_Depends = []\<rparr>)]\<rparr>,
     PackageCacheDir = ''/cache'', DependenciesDir = ''/p/.dep'', BaseDir = ''/p''\<rparr>"

text \<open>A validator that cannot decode a dependency's metadata cache.\<close>

definition collab_badcache :: collab where
  "collab_badcache = collab_ok\<lparr>AddFromFile := (\<lambda>log file. Some ''unexpected end of JSON input'')\<rparr>"

text \<open>
  A package with one type and two instances of it. The type marks \<open>icon\<close>, \<open>logo\<close> and
  \<open>copy\<close> as assets and \<open>name\<close> as none; \<open>range\<close> yields the annotations in the order
  written. An instance has a value at \<open>icon\<close> and at \<open>copy\<close>, and none at \<open>logo\<close>.
\<close>

definition icon_type :: Entity where
  "icon_type = \<lparr>Cti = ''cti.a.p.widget.v1.0'', Values = [],
     Annotations = [(''name'', \<lparr>Asset = None\<rparr>), (''icon'', \<lparr>Asset = Some True\<rparr>),
                    (''logo'', \<lparr>Asset = Some True\<rparr>), (''copy'', \<lparr>Asset = Some True\<rparr>)]\<rparr>"

definition clock_widget :: Entity where
  "clock_widget = \<lparr>Cti = ''cti.a.p.widget.v1.0~a.p.clock.v1.0'', Values = ''assets/clock.png'',
     Annotations = []\<rparr>"

definition notes_widget :: Entity where
  "notes_widget = \<lparr>Cti = ''cti.a.p.widget.v1.0~a.p.notes.v1.0'', Values = ''assets/notes.png'',
     Annotations = []\<rparr>"

definition widgets :: ParsedPackage where
  "widgets = \<lparr>Registry = \<lparr>Types = [''cti.a.p.widget.v1.0'' \<mapsto> icon_type],
                 Instances = [clock_widget, notes_widget], Total = [icon_type, clock_widget, notes_widget]\<rparr>,
     parsed_BaseDir = ''/p''\<rparr>"

definition collab_pack :: collab where
  "collab_pack = collab_ok\<lparr>
     ParsePackage := (\<lambda>log file. Inr widgets),
     GetValue := (\<lambda>key values. if key = ''icon'' then values
                    else if key = ''copy'' then values @ ''.bak'' else []),
     OpenFile := (\<lambda>file. if file = ''/p/assets/clock.png'' then Inr ''CLOCK''
                    else if file = ''/p/assets/notes.png'' then Inr ''NOTES''
                    else if file = ''/p/.cache.json'' then Inr ''{}''
                    else Inl ''no such file or directory'')\<rparr>"

text \<open>
  A bundle that lists two dictionary files with the same base name in two directories.
  The base name of a path is taken to be its last element without the extension.
\<close>

definition dict_io_ex :: dict_io where
  "dict_io_ex = \<lparr>
     os_Open = (\<lambda>name. if name = ''/b/a/en.json'' then Inr ''hello=Hello''
                 else if name = ''/b/b/en.json'' then Inr ''bye=Bye''
                 else if name = ''/b/de.json'' then Inr ''hello=Hallo''
                 else Inl ''no such file or directory''),
     path_Join = (\<lambda>a b. a @ ''/'' @ b),
     Decode = (\<lambda>input. if input = ''hello=Hello'' then Inr [(''hello'', ''Hello'')]
                 else if input = ''bye=Bye'' then Inr [(''bye'', ''Bye'')]
                 else if input = ''hello=Hallo'' then Inr [(''hello'', ''Hallo'')]
                 else Inl ''invalid character'' ),
     GetBaseName = (\<lambda>name. takeWhile (\<lambda>ch. ch \<noteq> CHR ''.'')
                      (rev (takeWhile (\<lambda>ch. ch \<noteq> CHR ''/'') (rev name))))\<rparr>"

definition bundle_of :: "string list \<Rightarrow> Bundle" where
  "bundle_of dicts = \<lparr>
     bundle_Index = \<lparr>AppCode = ''app'', RamlxVersion = ''1.0'', Entities = [],
        Dictionaries = dicts, Depends = [], Serialized = [],
        FilePath = ''/b/index.json'', idx_BaseDir = ''/b''\<rparr>,
     bundle_IndexLock = \<lparr>Version = ''v1'', Packages = []\<rparr>,
     bundle_Registry = None,
     bundle_BaseDir = ''/b''\<rparr>"

text \<open>
  A platform on which nothing fails for outside reasons, and a file system with an
  installed package \<open>/cache/pkg\<close> and an older copy of it at \<open>/dep/pkg\<close>.
\<close>

definition quiet :: platform where
  "quiet = \<lparr>
     Stat_fails = (\<lambda>fs p. None),
     RemoveAll_fails = (\<lambda>fs p. None),
     MkdirAll_fails = (\<lambda>fs p. None),
     Rename_fails = (\<lambda>fs src dst. None),
     Rename_onto_existing = (\<lambda>fs src dst. Inl ''file exists''),
     Copy_fails = (\<lambda>fs src dst. None),
     Copy_into_content = (\<lambda>fs src dst. Inl ''file exists'')\<rparr>"

definition disk :: filesystem where
  "disk = [([], Dir),
           ([''cache''], Dir),
           ([''cache'', ''pkg''], Dir),
           ([''cache'', ''pkg'', ''index.json''], File ''new''),
           ([''cache'', ''pkg'', ''types''], Dir),
           ([''cache'', ''pkg'', ''types'', ''a.raml''], File ''A''),
           ([''dep''], Dir),
           ([''dep'', ''pkg''], Dir),
           ([''dep'', ''pkg'', ''index.json''], File ''old''),
           ([''dep'', ''pkg'', ''stale''], File ''S'')]"

section \<open>Properties of the installer\<close>

lemmas ex_defs = collab_ok_def pm_AB_def ParseIndexDependency_spec_def lookupPackage_def
  zero_PackageLock_def

lemmas ex2_defs = collab_offline_def collab_nocache_def pm_vendor_def

lemmas install_defs = InstallNewDependencies_def installDependencies_def SaveIndex_def
  SaveIndexLock_def mergeDepends_def dropReplaced_def

lemma remdups_snoc: "remdups (xs @ [d]) = remdups (filter (\<lambda>x. x \<noteq> d) xs) @ [d]"
  by (induction xs) auto

lemma addDirect_closed:
  "addDirect ds reqs = ds @ rev (remdups (rev [d \<leftarrow> reqs. d \<notin> set ds]))"
proof (induction reqs arbitrary: ds)
  case Nil
  then show ?case by simp
next
  case (Cons d rest)
  show ?case
  proof (cases "d \<in> set ds")
    case True
    then show ?thesis using Cons.IH [of ds] by simp
  next
    case False
    have "[x \<leftarrow> rest. x \<notin> set (ds @ [d])] = filter (\<lambda>x. x \<noteq> d) [x \<leftarrow> rest. x \<notin> set ds]"
      by (induction rest) auto
    then show ?thesis using False Cons.IH [of "ds @ [d]"]
      by (simp add: remdups_snoc rev_filter remdups_filter)
  qed
qed

lemma installDependencies_Index:
  "installDependencies c pm log depends replace = (r, pm1, log1) \<Longrightarrow> Index pm1 = Index pm"
  by (auto simp: installDependencies_def split: prod.splits sum.splits option.splits)

lemma InstallNewDependencies_Depends:
  assumes "installDependencies c pm log depends replace = (Inr (installed, replaced), pm1, log1)"
  shows "Depends (Index (fst (snd (InstallNewDependencies c pm log depends replace))))
           = mergeDepends c replaced (Depends (Index pm)) depends"
  using assms installDependencies_Index [OF assms]
  by (simp add: InstallNewDependencies_def Let_def split: prod.splits option.splits)

subsection \<open>Replace semantics\<close>

text \<open>
  C1 (as amended). Let the manifest list no two specs with the same parsed name, and let
  \<open>InstallNewDependencies\<close> be called with \<open>replace = true\<close> and one new spec \<open>a2\<close> whose
  parsed name the install reports as superseded. Then the manifest's dependency list
  becomes the old list without every entry whose parsed name was superseded, in the old
  order, followed by \<open>a2\<close>: the new spec stands at the end of the list and not at the
  position of the entry it replaces. It is the only entry with its parsed name, and no
  two entries of the new list parse to the same name. This is the state in memory,
  whatever the two saves that follow return.
\<close>

theorem C1_replace_drops_then_appends:
  assumes inst: "installDependencies c pm log [a2] True = (Inr (installed, replaced), pm1, log1)"
    and sup: "fst (ParseIndexDependency c a2) \<in> replaced"
    and uniq: "distinct (map (\<lambda>d. fst (ParseIndexDependency c d)) (Depends (Index pm)))"
  shows "Depends (Index (fst (snd (InstallNewDependencies c pm log [a2] True))))
           = [d \<leftarrow> Depends (Index pm). fst (ParseIndexDependency c d) \<notin> replaced] @ [a2]
       \<and> [d \<leftarrow> Depends (Index (fst (snd (InstallNewDependencies c pm log [a2] True)))).
             fst (ParseIndexDependency c d) = fst (ParseIndexDependency c a2)] = [a2]
       \<and> distinct (map (\<lambda>d. fst (ParseIndexDependency c d))
             (Depends (Index (fst (snd (InstallNewDependencies c pm log [a2] True))))))"
proof -
  let ?name = "\<lambda>d. fst (ParseIndexDependency c d)"
  let ?kept = "[d \<leftarrow> Depends (Index pm). ?name d \<notin> replaced]"
  have ne: "replaced \<noteq> {}" using sup by auto
  have notin: "a2 \<notin> set ?kept" using sup by auto
  have eq: "Depends (Index (fst (snd (InstallNewDependencies c pm log [a2] True)))) = ?kept @ [a2]"
    using InstallNewDependencies_Depends [OF inst] ne notin
    by (simp add: mergeDepends_def dropReplaced_def)
  have none: "[d \<leftarrow> ?kept. ?name d = ?name a2] = []"
    using sup by (auto simp: filter_empty_conv)
  have dk: "distinct (map ?name ?kept)"
    using uniq by (simp add: distinct_map_filter)
  have "?name a2 \<notin> set (map ?name ?kept)" using sup by auto
  with dk have d2: "distinct (map ?name (?kept @ [a2]))" by simp
  show ?thesis unfolding eq using none d2 by simp
qed

text \<open>
  The package that depends on \<open>A@1\<close> and \<open>B@1\<close> installs \<open>A@2\<close> with replacement: the
  list becomes \<open>B@1\<close>, \<open>A@2\<close>.
\<close>

theorem C1_witness:
  "installDependencies collab_ok pm_AB [] [''A@2''] True
     = (Inr ([''A''], {''A''}), pm_AB, [DownloadCall [''A@2''] True, rewriteDepLinksCall ''/p/.dep/a.app'' ''b.app'',
          BuildPackageCacheCall ''/p/.dep/a.app/index.json''])
   \<and> Depends (Index (fst (snd (InstallNewDependencies collab_ok pm_AB [] [''A@2''] True))))
       = [''B@1'', ''A@2'']"
proof -
  have h1: "installDependencies collab_ok pm_AB [] [''A@2''] True
     = (Inr ([''A''], {''A''}), pm_AB, [DownloadCall [''A@2''] True, rewriteDepLinksCall ''/p/.dep/a.app'' ''b.app'',
          BuildPackageCacheCall ''/p/.dep/a.app/index.json''])"
    by (simp add: install_defs ex_defs)
  have h2: "fst (ParseIndexDependency collab_ok ''A@2'') \<in> {''A''}"
    by (simp add: ex_defs)
  have h3: "distinct (map (\<lambda>d. fst (ParseIndexDependency collab_ok d)) (Depends (Index pm_AB)))"
    by (simp add: ex_defs)
  have "[d \<leftarrow> Depends (Index pm_AB). fst (ParseIndexDependency collab_ok d) \<notin> {''A''}] = [''B@1'']"
    by (simp add: ex_defs)
  with C1_replace_drops_then_appends [OF h1 h2 h3] h1 show ?thesis by simp
qed

text \<open>
  C1 as stated fails there: \<open>A@1\<close> stood at index 0, and after the call index 0 does not
  hold \<open>A@2\<close>.
\<close>

theorem C1_counterexample:
  "Depends (Index pm_AB) ! 0 = ''A@1''
   \<and> fst (ParseIndexDependency collab_ok ''A@1'') = fst (ParseIndexDependency collab_ok ''A@2'')
   \<and> fst (installDependencies collab_ok pm_AB [] [''A@2''] True) = Inr ([''A''], {''A''})
   \<and> Depends (Index (fst (snd (InstallNewDependencies collab_ok pm_AB [] [''A@2''] True)))) ! 0 \<noteq> ''A@2''"
  by (simp add: install_defs ex_defs)

subsection \<open>Append semantics\<close>

text \<open>
  C2 (as amended). When the install succeeds and supersedes nothing, as an install with
  \<open>replace = false\<close> does, the manifest's dependency list keeps its entries and their
  order, and is extended by the requested specs that equal no entry of the list as
  strings, each once, in the order in which they are first requested
  (\<open>rev (remdups (rev xs))\<close> keeps the first occurrence of every element of \<open>xs\<close>). A
  requested spec that is already listed, character for character, changes nothing. The
  comparison is between whole spec strings, not parsed names.
\<close>

theorem C2_appends_unlisted_spec_strings:
  assumes inst: "installDependencies c pm log depends False = (Inr (installed, {}), pm1, log1)"
  shows "Depends (Index (fst (snd (InstallNewDependencies c pm log depends False))))
           = Depends (Index pm) @ rev (remdups (rev [d \<leftarrow> depends. d \<notin> set (Depends (Index pm))]))"
  using InstallNewDependencies_Depends [OF inst]
  by (simp add: mergeDepends_def addDirect_closed)

text \<open>
  Requesting \<open>C@1\<close>, \<open>A@1\<close>, \<open>C@1\<close> from the package that lists \<open>A@1\<close> and \<open>B@1\<close> appends
  \<open>C@1\<close> once.
\<close>

theorem C2_witness:
  "installDependencies collab_ok pm_AB [] [''C@1'', ''A@1'', ''C@1''] False
     = (Inr ([''C'', ''A'', ''C''], {}), pm_AB,
        [DownloadCall [''C@1'', ''A@1'', ''C@1''] False,
         BuildPackageCacheCall ''/p/.dep/c.app/index.json'',
         rewriteDepLinksCall ''/p/.dep/a.app'' ''b.app'',
         BuildPackageCacheCall ''/p/.dep/a.app/index.json'',
         BuildPackageCacheCall ''/p/.dep/c.app/index.json''])
   \<and> Depends (Index (fst (snd (InstallNewDependencies collab_ok pm_AB [] [''C@1'', ''A@1'', ''C@1''] False))))
       = [''A@1'', ''B@1'', ''C@1'']"
proof -
  have h1: "installDependencies collab_ok pm_AB [] [''C@1'', ''A@1'', ''C@1''] False
     = (Inr ([''C'', ''A'', ''C''], {}), pm_AB,
        [DownloadCall [''C@1'', ''A@1'', ''C@1''] False,
         BuildPackageCacheCall ''/p/.dep/c.app/index.json'',
         rewriteDepLinksCall ''/p/.dep/a.app'' ''b.app'',
         BuildPackageCacheCall ''/p/.dep/a.app/index.json'',
         BuildPackageCacheCall ''/p/.dep/c.app/index.json''])"
    by (simp add: install_defs ex_defs)
  have "Depends (Index pm_AB) = [''A@1'', ''B@1'']" by (simp add: pm_AB_def)
  with C2_appends_unlisted_spec_strings [OF h1] h1 show ?thesis by simp
qed

text \<open>
  C2 as stated fails: \<open>A@2\<close> has the parsed name of the listed \<open>A@1\<close>, and installing it
  without replacement changes the list, which then holds two entries named \<open>A\<close>.
\<close>

theorem C2_counterexample:
  "fst (installDependencies collab_ok pm_AB [] [''A@2''] False) = Inr ([''A''], {})
   \<and> fst (ParseIndexDependency collab_ok ''A@2'')
        \<in> set (map (\<lambda>d. fst (ParseIndexDependency collab_ok d)) (Depends (Index pm_AB)))
   \<and> Depends (Index (fst (snd (InstallNewDependencies collab_ok pm_AB [] [''A@2''] False))))
        = [''A@1'', ''B@1'', ''A@2'']
   \<and> Depends (Index (fst (snd (InstallNewDependencies collab_ok pm_AB [] [''A@2''] False))))
        \<noteq> Depends (Index pm_AB)"
  by (simp add: install_defs ex_defs)

subsection \<open>The pipeline stops at the first failing call\<close>

lemma runCalls_append:
  "runCalls c log (xs @ ys) =
     (case runCalls c log xs of (Some err, log1) \<Rightarrow> (Some err, log1)
                             | (None, log1) \<Rightarrow> runCalls c log1 ys)"
  by (induction xs arbitrary: log) (auto split: option.splits)

lemma rewriteLinks_runCalls:
  "rewriteLinks c pm pkgPath log deps =
     runCalls c log (map (\<lambda>dep. rewriteDepLinksCall pkgPath
        (lock_AppCode (lookupPackage (IndexLock pm) (fst (ParseIndexDependency c dep))))) deps)"
  by (induction deps arbitrary: log) (auto simp: Let_def split: option.splits)

lemma processInstalledDependencies_runCalls:
  "processInstalledDependencies c pm log installed =
     runCalls c log (concat (map (pipelineCalls c pm) installed))"
proof (induction installed arbitrary: log)
  case Nil
  then show ?case by simp
next
  case (Cons sourceName rest)
  show ?case
    by (simp add: Let_def pipelineCalls_def rewriteLinks_runCalls runCalls_append Cons.IH
          split: prod.splits option.splits)
qed

lemma runCalls_Some:
  "runCalls c log ks = (Some err, log') \<Longrightarrow>
     \<exists>done k rest e. ks = done @ k # rest \<and> log' = log @ done @ [k]
        \<and> callOutcome c (log @ done) k = Some e \<and> err = callPrefix k @ e
        \<and> fst (runCalls c log done) = None"
proof (induction ks arbitrary: log)
  case Nil
  then show ?case by simp
next
  case (Cons k ks)
  show ?case
  proof (cases "callOutcome c log k")
    case (Some e)
    with Cons.prems have "log' = log @ [k]" "err = callPrefix k @ e" by auto
    with Some show ?thesis by (intro exI [of _ "[]"] exI [of _ k] exI [of _ ks] exI [of _ e]) simp
  next
    case None
    with Cons.prems have "runCalls c (log @ [k]) ks = (Some err, log')" by simp
    from Cons.IH [OF this] obtain dn k' rest e where
      *: "ks = dn @ k' # rest" "log' = (log @ [k]) @ dn @ [k']"
         "callOutcome c ((log @ [k]) @ dn) k' = Some e" "err = callPrefix k' @ e"
         "fst (runCalls c (log @ [k]) dn) = None"
      by blast
    show ?thesis
      using * None
      by (intro exI [of _ "k # dn"] exI [of _ k'] exI [of _ rest] exI [of _ e]) simp
  qed
qed

lemma runCalls_None_snd:
  "fst (runCalls c log ks) = None \<Longrightarrow> snd (runCalls c log ks) = log @ ks"
  by (induction ks arbitrary: log) (auto split: option.splits)

lemma runCalls_None:
  "runCalls c log ks = (None, log') \<Longrightarrow> log' = log @ ks"
  using runCalls_None_snd [of c log ks] by simp

lemma runCalls_log:
  "runCalls c log ks = (r, log') \<Longrightarrow> \<exists>n. log' = log @ take n ks"
proof (cases r)
  case None
  assume "runCalls c log ks = (r, log')"
  with None have "log' = log @ take (length ks) ks" using runCalls_None by simp
  then show ?thesis by blast
next
  case (Some err)
  assume "runCalls c log ks = (r, log')"
  with Some obtain dn k rest where "ks = dn @ k # rest" "log' = log @ dn @ [k]"
    using runCalls_Some by blast
  then have "log' = log @ take (Suc (length dn)) ks" by simp
  then show ?thesis by blast
qed

lemma pipelineCalls_no_save: "k \<in> set (pipelineCalls c pm s) \<Longrightarrow> \<not> isSave k"
  by (auto simp: pipelineCalls_def Let_def)

lemma processInstalledDependencies_no_save:
  assumes "processInstalledDependencies c pm log installed = (r, log')"
  shows "filter isSave log' = filter isSave log"
proof -
  from assms obtain n where
    n: "log' = log @ take n (concat (map (pipelineCalls c pm) installed))"
    using runCalls_log unfolding processInstalledDependencies_runCalls by blast
  have "\<forall>k \<in> set (take n (concat (map (pipelineCalls c pm) installed))). \<not> isSave k"
    using pipelineCalls_no_save by (fastforce dest: in_set_takeD)
  then have "filter isSave (take n (concat (map (pipelineCalls c pm) installed))) = []"
    by (simp add: filter_empty_conv)
  with n show ?thesis by simp
qed

lemma installDependencies_no_save:
  assumes "installDependencies c pm log depends replace = (r, pm1, log1)"
  shows "filter isSave log1 = filter isSave log"
  using assms
  by (auto simp: installDependencies_def split: prod.splits sum.splits option.splits
           dest: processInstalledDependencies_no_save)

lemma Download_fails:
  "snd (Download c log (IndexLock pm) depends replace) = Inl err \<Longrightarrow>
     installDependencies c pm log depends replace =
       (Inl (''failed to download dependencies: '' @ err),
        pm\<lparr>IndexLock := fst (Download c log (IndexLock pm) depends replace)\<rparr>,
        log @ [DownloadCall depends replace])"
  by (auto simp: installDependencies_def split: prod.splits sum.splits)

subsection \<open>A failed install persists nothing\<close>

text \<open>
  C3. The install step is the download followed by the post-processing of what was
  downloaded. If it fails, in particular if the download fails (\<open>Download_fails\<close>),
  \<open>InstallNewDependencies\<close> returns an error that wraps the failure, makes no call
  beyond those of the install step, so neither \<open>SaveIndex\<close> nor \<open>SaveIndexLock\<close> is
  reached, and leaves the manifest in memory, its dependency list included, as it was.
\<close>

theorem C3_failed_install_saves_nothing:
  assumes "fst (installDependencies c pm log depends replace) = Inl err"
  shows "fst (InstallNewDependencies c pm log depends replace)
           = Inl (''failed to install dependencies: '' @ err)
       \<and> Index (fst (snd (InstallNewDependencies c pm log depends replace))) = Index pm
       \<and> snd (snd (InstallNewDependencies c pm log depends replace))
           = snd (snd (installDependencies c pm log depends replace))
       \<and> filter isSave (snd (snd (InstallNewDependencies c pm log depends replace)))
           = filter isSave log"
proof -
  obtain pm1 log1 where i: "installDependencies c pm log depends replace = (Inl err, pm1, log1)"
    using assms by (cases "installDependencies c pm log depends replace") auto
  have r: "InstallNewDependencies c pm log depends replace
             = (Inl (''failed to install dependencies: '' @ err), pm1, log1)"
    using i by (simp add: InstallNewDependencies_def)
  show ?thesis
    using r i installDependencies_Index [OF i] installDependencies_no_save [OF i] by simp
qed

text \<open>
  With a resolver that cannot fetch, the only call made is the download.
\<close>

theorem C3_witness:
  "fst (installDependencies collab_offline pm_AB [] [''C@1''] False)
     = Inl ''failed to download dependencies: network unreachable''
   \<and> InstallNewDependencies collab_offline pm_AB [] [''C@1''] False
     = (Inl ''failed to install dependencies: failed to download dependencies: network unreachable'',
        pm_AB, [DownloadCall [''C@1''] False])"
proof -
  have d: "snd (Download collab_offline [] (IndexLock pm_AB) [''C@1''] False) = Inl ''network unreachable''"
    by (simp add: ex2_defs ex_defs)
  have h: "fst (installDependencies collab_offline pm_AB [] [''C@1''] False)
     = Inl ''failed to download dependencies: network unreachable''"
    using Download_fails [OF d] by simp
  have i: "installDependencies collab_offline pm_AB [] [''C@1''] False
     = (Inl ''failed to download dependencies: network unreachable'', pm_AB, [DownloadCall [''C@1''] False])"
    by (simp add: install_defs ex2_defs ex_defs)
  have e: "InstallNewDependencies collab_offline pm_AB [] [''C@1''] False
     = (Inl ''failed to install dependencies: failed to download dependencies: network unreachable'',
        pm_AB, [DownloadCall [''C@1''] False])"
    by (simp add: install_defs ex2_defs ex_defs)
  from C3_failed_install_saves_nothing [OF h] h e show ?thesis by simp
qed

subsection \<open>Errors of the post-processing\<close>




section \<open>Properties of the validator orchestrator\<close>

lemmas ex3_defs = collab_badcache_def icon_type_def clock_widget_def notes_widget_def widgets_def
  collab_pack_def

text \<open>
  What the loop does when the metadata cache of a locked dependency cannot be loaded:
  if the entries before it were added without error, the loop returns at once with one
  error, and the entries after it are not read. The error names the cache file constant
  and wraps the collaborator's error.
\<close>

lemma addLockedPackages_append:
  "addLockedPackages c pm log (xs @ ys) =
     (case addLockedPackages c pm log xs of
        (Some errs, log1) \<Rightarrow> (Some errs, log1)
      | (None, log1) \<Rightarrow> addLockedPackages c pm log1 ys)"
  by (induction xs arbitrary: log) (auto simp: Let_def split: sum.splits option.splits)

lemma addLockedPackages_cache_failure:
  assumes "addLockedPackages c pm log before = (None, log1)"
    and "ReadIndexFile c log1 (Join c (Join c (DependenciesDir pm) (lock_AppCode dep)) (IndexFileName c)) = Inr idx"
    and "AddFromFile c (log1 @ [ReadIndexFileCall (Join c (Join c (DependenciesDir pm) (lock_AppCode dep)) (IndexFileName c))])
           (Join c (idx_BaseDir idx) (MetadataCacheFile c)) = Some err"
  shows "addLockedPackages c pm log (before @ (sourceName, dep) # rest)
           = (Some [''failed to add entities from '' @ MetadataCacheFile c @ '': '' @ err],
              log1 @ [ReadIndexFileCall (Join c (Join c (DependenciesDir pm) (lock_AppCode dep)) (IndexFileName c)),
                      AddFromFileCall (Join c (idx_BaseDir idx) (MetadataCacheFile c))])"
  using assms by (simp add: addLockedPackages_append Let_def)

text \<open>
  C4. A package whose lock snapshot has the entry \<open>vendor.lib\<close>, installed as \<open>xyz\<close>, with
  a metadata cache that cannot be decoded. \<open>Validate\<close> stops after the failed load and
  returns one error; the error names neither the source name nor the installed
  identifier of the dependency, where the error for an unreadable manifest of the same
  dependency is formatted with \<open>dep.AppCode\<close>.
\<close>

theorem C4_cache_error_omits_the_dependency:
  "Validate collab_badcache pm_vendor []
     = ([''failed to add entities from .cache.json: unexpected end of JSON input''],
        [ParsePackageCall ''/p/index.json'', DumpCacheCall, AddEntitiesCall,
         ReadIndexFileCall ''/p/.dep/xyz/index.json'', AddFromFileCall ''/p/.dep/xyz/.cache.json''])
   \<and> \<not> sublist ''xyz'' ''failed to add entities from .cache.json: unexpected end of JSON input''
   \<and> \<not> sublist ''vendor.lib'' ''failed to add entities from .cache.json: unexpected end of JSON input''"
  by (simp add: Validate_def ex3_defs ex2_defs ex_defs sublist_Cons_right)

section \<open>Properties of the bundle packer\<close>

subsection \<open>The scan of one entity\<close>

lemma packAnnotations_skip:
  "packAnnotations c p entity ar annotations
     = packAnnotations c p entity ar (filter (\<lambda>(key, annotation). Asset annotation \<noteq> None) annotations)"
  by (induction annotations arbitrary: ar) (auto simp: Let_def split: sum.splits)

lemma packAnnotations_break:
  assumes "Asset annotation \<noteq> None" and "GetValue c key (Values entity) = []"
  shows "packAnnotations c p entity ar (before @ (key, annotation) # after)
           = packAnnotations c p entity ar before"
  using assms
proof (induction before arbitrary: ar)
  case Nil
  then show ?case by (auto simp: Let_def)
next
  case (Cons x before)
  obtain k a where x: "x = (k, a)" by (cases x)
  show ?case
    using Cons
    by (auto simp: x Let_def split: sum.splits)
qed

text \<open>
  C5. Let the type of an entity be found, and let one of its asset annotations have the
  empty string as the entity's value. Then the scan of the entity's annotations is the
  scan of the annotations before that one: those after it are not looked at, and
  reaching it is no error. Annotations that are no asset make no difference to the
  scan: it is the scan of the asset annotations alone. The scan of the entities goes on
  with the entities after this one, unless an asset before the empty one failed.
\<close>

theorem C5_empty_asset_path_ends_the_entity_scan:
  assumes "Types (Registry p) (GetParentCti c (Cti entity)) = Some typ"
    and "Annotations typ = before @ (key, annotation) # after"
    and "Asset annotation \<noteq> None"
    and "GetValue c key (Values entity) = []"
  shows "packAnnotations c p entity ar (Annotations typ) = packAnnotations c p entity ar before
       \<and> packAnnotations c p entity ar (Annotations typ)
           = packAnnotations c p entity ar
               (filter (\<lambda>(key, annotation). Asset annotation \<noteq> None) (Annotations typ))
       \<and> packEntities c p ar (entity # rest)
           = (case packAnnotations c p entity ar before of
                Inl err \<Rightarrow> Inl err
              | Inr ar1 \<Rightarrow> packEntities c p ar1 rest)"
  using assms packAnnotations_break [of annotation c key entity p ar before after]
    packAnnotations_skip [of c p entity ar "Annotations typ"]
  by simp

text \<open>
  The scan of the first widget bundles its icon, stops at its empty logo, never reaches
  its copy, and the second widget is scanned after it.
\<close>

theorem C5_witness:
  "packAnnotations collab_pack widgets clock_widget [] (Annotations icon_type)
     = Inr [(''assets/clock.png'', ''CLOCK'')]
   \<and> packEntities collab_pack widgets [] [clock_widget, notes_widget]
     = Inr [(''assets/clock.png'', ''CLOCK''), (''assets/notes.png'', ''NOTES'')]"
proof -
  have h1: "Types (Registry widgets) (GetParentCti collab_pack (Cti clock_widget)) = Some icon_type"
    by (simp add: ex3_defs ex_defs)
  have h2: "Annotations icon_type
      = [(''name'', \<lparr>Asset = None\<rparr>), (''icon'', \<lparr>Asset = Some True\<rparr>)]
        @ (''logo'', \<lparr>Asset = Some True\<rparr>) # [(''copy'', \<lparr>Asset = Some True\<rparr>)]"
    by (simp add: ex3_defs)
  have h3: "Asset \<lparr>Asset = Some True\<rparr> \<noteq> None" by simp
  have h4: "GetValue collab_pack ''logo'' (Values clock_widget) = []"
    by (simp add: ex3_defs ex_defs)
  have b: "packAnnotations collab_pack widgets clock_widget []
             [(''name'', \<lparr>Asset = None\<rparr>), (''icon'', \<lparr>Asset = Some True\<rparr>)]
           = Inr [(''assets/clock.png'', ''CLOCK'')]"
    by (simp add: bundleAsset_def ex3_defs ex_defs)
  have r: "packEntities collab_pack widgets [(''assets/clock.png'', ''CLOCK'')] [notes_widget]
           = Inr [(''assets/clock.png'', ''CLOCK''), (''assets/notes.png'', ''NOTES'')]"
    by (simp add: bundleAsset_def ex3_defs ex_defs)
  from C5_empty_asset_path_ends_the_entity_scan
         [OF h1 h2 h3 h4, of "[]" "[notes_widget]"] b r
  show ?thesis by simp
qed

subsection \<open>The archive\<close>









section \<open>Properties of GetDictionaries\<close>

lemmas dict_defs = GetDictionaries_def loadDictionary_def validateDictionary_def dictionaryMap_def
  dict_io_ex_def bundle_of_def


lemma loadDictionaries_Cons:
  "loadDictionaries io baseDir m (dict # rest) =
     (case loadDictionary io baseDir dict of
        Inl err \<Rightarrow> Inl err
      | Inr (lang, entry) \<Rightarrow> loadDictionaries io baseDir (m(lang \<mapsto> entry)) rest)"
  by (simp add: loadDictionary_def validateDictionary_def split: sum.splits)

lemma loadDictionaries_fails:
  assumes "\<exists>dict \<in> set dicts. isl (loadDictionary io baseDir dict)"
  shows "\<exists>dict \<in> set dicts. \<exists>err. loadDictionary io baseDir dict = Inl err
           \<and> loadDictionaries io baseDir m dicts = Inl err"
  using assms
proof (induction dicts arbitrary: m)
  case Nil
  then show ?case by simp
next
  case (Cons dict rest)
  show ?case
  proof (cases "loadDictionary io baseDir dict")
    case (Inl err)
    then show ?thesis by (auto simp: loadDictionaries_Cons simp del: loadDictionaries.simps)
  next
    case (Inr kv)
    obtain lang entry where kv: "kv = (lang, entry)" by (cases kv)
    from Inr Cons.prems have "\<exists>d \<in> set rest. isl (loadDictionary io baseDir d)" by auto
    from Cons.IH [OF this, of "m(lang \<mapsto> entry)"] obtain d err where
      d: "d \<in> set rest" "loadDictionary io baseDir d = Inl err"
         "loadDictionaries io baseDir (m(lang \<mapsto> entry)) rest = Inl err"
      by blast
    have "loadDictionaries io baseDir m (dict # rest) = Inl err"
      unfolding loadDictionaries_Cons Inr kv using d(3) by simp
    with d(1,2) show ?thesis by (intro bexI [of _ d] exI [of _ err]) simp_all
  qed
qed

lemma loadDictionaries_succeeds:
  assumes "\<forall>dict \<in> set dicts. \<not> isl (loadDictionary io baseDir dict)"
  shows "loadDictionaries io baseDir m dicts
           = Inr (m ++ map_of (rev (map (\<lambda>dict. projr (loadDictionary io baseDir dict)) dicts)))"
  using assms
proof (induction dicts arbitrary: m)
  case Nil
  then show ?case by simp
next
  case (Cons dict rest)
  from Cons.prems obtain lang entry where
    l: "loadDictionary io baseDir dict = Inr (lang, entry)"
    by (cases "loadDictionary io baseDir dict") auto
  from Cons.prems have "\<forall>d \<in> set rest. \<not> isl (loadDictionary io baseDir d)" by simp
  then have r: "loadDictionaries io baseDir (m(lang \<mapsto> entry)) rest
      = Inr (m(lang \<mapsto> entry)
             ++ map_of (rev (map (\<lambda>dict. projr (loadDictionary io baseDir dict)) rest)))"
    by (rule Cons.IH)
  have m: "m(lang \<mapsto> entry)
             ++ map_of (rev (map (\<lambda>dict. projr (loadDictionary io baseDir dict)) rest))
           = m ++ map_of (rev (map (\<lambda>dict. projr (loadDictionary io baseDir dict)) (dict # rest)))"
    by (simp add: l map_add_upd_left [symmetric] del: map_add_upd_left)
  show ?case
    unfolding loadDictionaries_Cons l m [symmetric] using r by simp
qed

lemma map_of_rev_distinct:
  assumes "distinct (map fst kvs)" and "(k, v) \<in> set kvs"
  shows "map_of (rev kvs) k = Some v"
  using assms by (simp add: map_of_eq_Some_iff rev_map [symmetric])

lemma loadDictionary_key:
  assumes "\<not> isl (loadDictionary io baseDir dict)"
  shows "fst (projr (loadDictionary io baseDir dict)) = GetBaseName io (path_Join io baseDir dict)"
  using assms by (auto simp: loadDictionary_def split: sum.splits)

lemma dictionaryMap_keys:
  assumes "\<forall>dict \<in> set dicts. \<not> isl (loadDictionary io baseDir dict)"
  shows "map fst (map (\<lambda>dict. projr (loadDictionary io baseDir dict)) dicts)
           = map (\<lambda>dict. GetBaseName io (path_Join io baseDir dict)) dicts"
  using assms loadDictionary_key by simp

lemma dictionaryMap_dom:
  assumes "\<forall>dict \<in> set dicts. \<not> isl (loadDictionary io baseDir dict)"
  shows "dom (dictionaryMap io baseDir dicts)
           = (\<lambda>dict. GetBaseName io (path_Join io baseDir dict)) ` set dicts"
proof -
  have "dom (dictionaryMap io baseDir dicts)
          = set (map fst (map (\<lambda>dict. projr (loadDictionary io baseDir dict)) dicts))"
    unfolding dictionaryMap_def dom_map_of_conv_image_fst by (simp add: image_image)
  then show ?thesis unfolding dictionaryMap_keys [OF assms] by simp
qed

lemma dictionaryMap_distinct:
  assumes ok: "\<forall>dict \<in> set dicts. \<not> isl (loadDictionary io baseDir dict)"
    and dist: "distinct (map (\<lambda>dict. GetBaseName io (path_Join io baseDir dict)) dicts)"
    and d: "dict \<in> set dicts"
  shows "dictionaryMap io baseDir dicts (GetBaseName io (path_Join io baseDir dict))
           = Some (snd (projr (loadDictionary io baseDir dict)))"
proof -
  let ?kvs = "map (\<lambda>dict. projr (loadDictionary io baseDir dict)) dicts"
  have dk: "distinct (map fst ?kvs)"
    unfolding dictionaryMap_keys [OF ok] by (rule dist)
  have "projr (loadDictionary io baseDir dict) \<in> set ?kvs"
    using d by simp
  moreover have "projr (loadDictionary io baseDir dict)
      = (GetBaseName io (path_Join io baseDir dict), snd (projr (loadDictionary io baseDir dict)))"
    using loadDictionary_key [of io baseDir dict] ok d by (metis prod.collapse)
  ultimately have "(GetBaseName io (path_Join io baseDir dict),
                    snd (projr (loadDictionary io baseDir dict))) \<in> set ?kvs"
    by simp
  from map_of_rev_distinct [OF dk this] show ?thesis by (simp add: dictionaryMap_def)
qed

text \<open>
  C10 (as amended). If one of the listed dictionary files cannot be opened or decoded,
  \<open>GetDictionaries\<close> returns the zero value of \<open>Dictionaries\<close>, with the \<open>nil\<close> map, and
  the wrapped error of one such file, so no partly filled map is returned. If every
  listed file loads, it returns no error and the map whose keys are the base names of
  the listed files, each key holding the entry of the last listed file with that base
  name; when the base names of the listed files are pairwise different, that is one
  entry for every listed file, under its base name.
\<close>

theorem C10_dictionaries_all_or_nothing:
  "((\<exists>dict \<in> set (Dictionaries (bundle_Index b)). isl (loadDictionary io (bundle_BaseDir b) dict))
      \<longrightarrow> (\<exists>dict \<in> set (Dictionaries (bundle_Index b)). \<exists>err.
             loadDictionary io (bundle_BaseDir b) dict = Inl err
           \<and> GetDictionaries io b = (None, Some err)))
   \<and> ((\<forall>dict \<in> set (Dictionaries (bundle_Index b)). \<not> isl (loadDictionary io (bundle_BaseDir b) dict))
      \<longrightarrow> GetDictionaries io b
            = (Some (dictionaryMap io (bundle_BaseDir b) (Dictionaries (bundle_Index b))), None)
        \<and> dom (dictionaryMap io (bundle_BaseDir b) (Dictionaries (bundle_Index b)))
            = (\<lambda>dict. GetBaseName io (path_Join io (bundle_BaseDir b) dict))
                ` set (Dictionaries (bundle_Index b))
        \<and> (distinct (map (\<lambda>dict. GetBaseName io (path_Join io (bundle_BaseDir b) dict))
                        (Dictionaries (bundle_Index b)))
            \<longrightarrow> (\<forall>dict \<in> set (Dictionaries (bundle_Index b)).
                   dictionaryMap io (bundle_BaseDir b) (Dictionaries (bundle_Index b))
                       (GetBaseName io (path_Join io (bundle_BaseDir b) dict))
                     = Some (snd (projr (loadDictionary io (bundle_BaseDir b) dict))))))"
proof (intro conjI impI ballI)
  assume "\<exists>dict \<in> set (Dictionaries (bundle_Index b)). isl (loadDictionary io (bundle_BaseDir b) dict)"
  from loadDictionaries_fails [OF this, of Map.empty]
  show "\<exists>dict \<in> set (Dictionaries (bundle_Index b)). \<exists>err.
             loadDictionary io (bundle_BaseDir b) dict = Inl err
           \<and> GetDictionaries io b = (None, Some err)"
    by (auto simp: GetDictionaries_def)
next
  assume ok: "\<forall>dict \<in> set (Dictionaries (bundle_Index b)). \<not> isl (loadDictionary io (bundle_BaseDir b) dict)"
  from loadDictionaries_succeeds [OF ok, of Map.empty]
  show "GetDictionaries io b
            = (Some (dictionaryMap io (bundle_BaseDir b) (Dictionaries (bundle_Index b))), None)"
    by (simp add: GetDictionaries_def dictionaryMap_def)
next
  assume ok: "\<forall>dict \<in> set (Dictionaries (bundle_Index b)). \<not> isl (loadDictionary io (bundle_BaseDir b) dict)"
  then show "dom (dictionaryMap io (bundle_BaseDir b) (Dictionaries (bundle_Index b)))
            = (\<lambda>dict. GetBaseName io (path_Join io (bundle_BaseDir b) dict))
                ` set (Dictionaries (bundle_Index b))"
    by (rule dictionaryMap_dom)
next
  fix dict
  assume "\<forall>dict \<in> set (Dictionaries (bundle_Index b)). \<not> isl (loadDictionary io (bundle_BaseDir b) dict)"
    and "distinct (map (\<lambda>dict. GetBaseName io (path_Join io (bundle_BaseDir b) dict))
                        (Dictionaries (bundle_Index b)))"
    and "dict \<in> set (Dictionaries (bundle_Index b))"
  then show "dictionaryMap io (bundle_BaseDir b) (Dictionaries (bundle_Index b))
                       (GetBaseName io (path_Join io (bundle_BaseDir b) dict))
                     = Some (snd (projr (loadDictionary io (bundle_BaseDir b) dict)))"
    by (rule dictionaryMap_distinct)
qed

text \<open>
  Two files with different base names give two entries; a list with a file that does
  not exist gives the \<open>nil\<close> map and the error of \<open>os.Open\<close>.
\<close>

theorem C10_witness:
  "GetDictionaries dict_io_ex (bundle_of [''de.json'', ''a/en.json''])
     = (Some [''de'' \<mapsto> [(''hello'', ''Hallo'')], ''en'' \<mapsto> [(''hello'', ''Hello'')]], None)
   \<and> GetDictionaries dict_io_ex (bundle_of [''de.json'', ''fr.json'', ''a/en.json''])
     = (None, Some ''open dictionary file: no such file or directory'')"
proof -
  have ok: "\<forall>dict \<in> set (Dictionaries (bundle_Index (bundle_of [''de.json'', ''a/en.json'']))).
              \<not> isl (loadDictionary dict_io_ex
                       (bundle_BaseDir (bundle_of [''de.json'', ''a/en.json''])) dict)"
    by (simp add: dict_defs)
  have m: "dictionaryMap dict_io_ex (bundle_BaseDir (bundle_of [''de.json'', ''a/en.json'']))
              (Dictionaries (bundle_Index (bundle_of [''de.json'', ''a/en.json''])))
           = [''de'' \<mapsto> [(''hello'', ''Hallo'')], ''en'' \<mapsto> [(''hello'', ''Hello'')]]"
    by (simp add: dict_defs)
  have bad: "\<exists>dict \<in> set (Dictionaries (bundle_Index (bundle_of [''de.json'', ''fr.json'', ''a/en.json'']))).
              isl (loadDictionary dict_io_ex
                       (bundle_BaseDir (bundle_of [''de.json'', ''fr.json'', ''a/en.json''])) dict)"
    by (simp add: dict_defs)
  have only: "loadDictionary dict_io_ex (bundle_BaseDir (bundle_of [''de.json'', ''fr.json'', ''a/en.json''])) dict
                = Inl err \<Longrightarrow> dict \<in> set (Dictionaries (bundle_Index (bundle_of [''de.json'', ''fr.json'', ''a/en.json'']))) \<Longrightarrow>
              err = ''open dictionary file: no such file or directory''" for dict err
    by (auto simp: dict_defs)
  from C10_dictionaries_all_or_nothing [of "bundle_of [''de.json'', ''a/en.json'']" dict_io_ex] ok m
  have one: "GetDictionaries dict_io_ex (bundle_of [''de.json'', ''a/en.json''])
     = (Some [''de'' \<mapsto> [(''hello'', ''Hallo'')], ''en'' \<mapsto> [(''hello'', ''Hello'')]], None)"
    by simp
  from C10_dictionaries_all_or_nothing [of "bundle_of [''de.json'', ''fr.json'', ''a/en.json'']" dict_io_ex] bad
  obtain dict err where
    "dict \<in> set (Dictionaries (bundle_Index (bundle_of [''de.json'', ''fr.json'', ''a/en.json''])))"
    "loadDictionary dict_io_ex (bundle_BaseDir (bundle_of [''de.json'', ''fr.json'', ''a/en.json''])) dict = Inl err"
    "GetDictionaries dict_io_ex (bundle_of [''de.json'', ''fr.json'', ''a/en.json'']) = (None, Some err)"
    by blast
  with only have two: "GetDictionaries dict_io_ex (bundle_of [''de.json'', ''fr.json'', ''a/en.json''])
     = (None, Some ''open dictionary file: no such file or directory'')"
    by blast
  from one two show ?thesis by simp
qed

text \<open>
  C10 as stated fails: both \<open>a/en.json\<close> and \<open>b/en.json\<close> load and have the base name
  \<open>en\<close>; the map returned has one entry for the two listed files, the entry of the
  second.
\<close>

theorem C10_counterexample:
  "GetDictionaries dict_io_ex (bundle_of [''a/en.json'', ''b/en.json''])
     = (Some [''en'' \<mapsto> [(''bye'', ''Bye'')]], None)
   \<and> loadDictionary dict_io_ex ''/b'' ''a/en.json'' = Inr (''en'', [(''hello'', ''Hello'')])
   \<and> loadDictionary dict_io_ex ''/b'' ''b/en.json'' = Inr (''en'', [(''bye'', ''Bye'')])
   \<and> card (dom [''en'' \<mapsto> [(''bye'', ''Bye'')]])
        < length (Dictionaries (bundle_Index (bundle_of [''a/en.json'', ''b/en.json''])))"
  by (simp add: dict_defs)

section \<open>Properties of the file system replace helpers\<close>

lemmas fs_defs = ReplaceWithMove_def ReplaceWithCopy_def os_Stat_def os_RemoveAll_def
  os_MkdirAll_def os_Rename_def copy_Copy_def rebase_def filepath_Dir_def showPath_def
  quiet_def disk_def

subsection \<open>Reading a file system after an operation\<close>

lemma map_of_filter_key:
  "map_of (filter (\<lambda>(q, n). P q) fs) k = (if P k then map_of fs k else None)"
  by (induction fs) auto

lemma list_ex_key:
  "list_ex (\<lambda>(q, n). P q) fs \<longleftrightarrow> (\<exists>k. P k \<and> map_of fs k \<noteq> None)"
proof
  assume "list_ex (\<lambda>(q, n). P q) fs"
  then obtain q n where "(q, n) \<in> set fs" "P q" by (auto simp: list_ex_iff)
  then have "P q \<and> map_of fs q \<noteq> None"
    by (metis fst_conv image_eqI map_of_eq_None_iff)
  then show "\<exists>k. P k \<and> map_of fs k \<noteq> None" by blast
next
  assume "\<exists>k. P k \<and> map_of fs k \<noteq> None"
  then obtain k n where "P k" "map_of fs k = Some n" by auto
  then have "(k, n) \<in> set fs" "P k" by (auto dest: map_of_SomeD)
  then show "list_ex (\<lambda>(q, n). P q) fs" by (auto simp: list_ex_iff)
qed

lemma map_of_new_dirs:
  "map_of (map (\<lambda>q. (q, Dir)) qs @ fs) k = (if k \<in> set qs then Some Dir else map_of fs k)"
  by (induction qs) auto

lemma map_of_rebase:
  "map_of (rebase src dst fs) k
     = (if prefix dst k then map_of fs (src @ drop (length dst) k) else None)"
proof (induction fs)
  case Nil
  then show ?case by (simp add: rebase_def)
next
  case (Cons e fs)
  obtain q n where e: "e = (q, n)" by (cases e)
  show ?case
  proof (cases "prefix src q")
    case True
    then obtain r where q: "q = src @ r" by (auto simp: prefix_def)
    have "rebase src dst (e # fs) = (dst @ r, n) # rebase src dst fs"
      by (simp add: rebase_def e q)
    moreover have "dst @ r = k \<longleftrightarrow> prefix dst k \<and> src @ r = src @ drop (length dst) k"
      by (auto simp: prefix_def)
    ultimately show ?thesis using Cons.IH by (auto simp: e q)
  next
    case False
    then have "rebase src dst (e # fs) = rebase src dst fs" by (simp add: rebase_def e)
    moreover have "q \<noteq> src @ drop (length dst) k" using False by auto
    ultimately show ?thesis using Cons.IH by (auto simp: e)
  qed
qed

lemma os_RemoveAll_Inr:
  assumes "os_RemoveAll pf fs p = Inr fs1"
  shows "p \<noteq> []" and "map_of fs1 k = (if prefix p k then None else map_of fs k)"
  using assms
  by (auto simp: os_RemoveAll_def map_of_filter_key split: option.splits if_splits)

lemma os_MkdirAll_Inr:
  assumes "os_MkdirAll pf fs p = Inr fs1"
  shows "map_of fs1 k = (if prefix k p \<and> map_of fs k = None then Some Dir else map_of fs k)"
    and "\<not> isFile (map_of fs p)"
proof -
  from assms have eq: "fs1 = map (\<lambda>q. (q, Dir)) (filter (\<lambda>q. map_of fs q = None) (prefixes p)) @ fs"
    and nofile: "\<forall>q \<in> set (prefixes p). \<not> isFile (map_of fs q)"
    by (auto simp: os_MkdirAll_def list_ex_iff split: option.splits if_splits)
  show "map_of fs1 k = (if prefix k p \<and> map_of fs k = None then Some Dir else map_of fs k)"
    unfolding eq map_of_new_dirs by (auto simp: in_set_prefixes)
  show "\<not> isFile (map_of fs p)"
    using nofile by (simp add: in_set_prefixes)
qed

lemma os_MkdirAll_dir:
  assumes "os_MkdirAll pf fs p = Inr fs1"
  shows "map_of fs1 p = Some Dir"
proof -
  have nf: "\<not> isFile (map_of fs p)" using os_MkdirAll_Inr(2) [OF assms] .
  show ?thesis
  proof (cases "map_of fs p")
    case None
    then show ?thesis using os_MkdirAll_Inr(1) [OF assms, of p] by simp
  next
    case (Some n)
    with nf have "n = Dir" by (cases n) auto
    with Some show ?thesis using os_MkdirAll_Inr(1) [OF assms, of p] by simp
  qed
qed


subsection \<open>ReplaceWithMove\<close>

lemma prefix_of_extension:
  "prefix dst (src @ rel) \<Longrightarrow> prefix dst src \<or> prefix src dst"
  by (auto simp: prefix_append)






subsection \<open>ReplaceWithCopy\<close>

lemma wellformed_parent:
  assumes wf: "wellformed fs" and ex: "map_of fs k \<noteq> None" and pre: "strict_prefix r k"
  shows "map_of fs r = Some Dir"
proof -
  from ex obtain n where "(k, n) \<in> set fs" by (auto dest: map_of_SomeD)
  with wf have "\<forall>r \<in> set (prefixes k). r = k \<or> map_of fs r = Some Dir"
    by (auto simp: wellformed_def list_all_iff)
  with pre show ?thesis by (auto simp: in_set_prefixes strict_prefix_def)
qed

lemma ReplaceWithCopy_Inr:
  assumes wf: "wellformed fs" and ne: "src \<noteq> dst"
    and ok: "ReplaceWithCopy pf fs src dst = Inr fs3"
  shows "subtree fs3 dst = subtree fs src" and "subtree fs3 src = subtree fs src"
proof -
  from ok obtain fs1 fs2 where
    st: "(case os_Stat pf fs dst of
            Inr info \<Rightarrow>
              (case os_RemoveAll pf fs dst of
                 Inl err \<Rightarrow> Inl (''remove existing bundle: '' @ err)
               | Inr fs1 \<Rightarrow> Inr fs1)
          | Inl err \<Rightarrow>
              if \<not> IsNotExist err then Inl (''stat '' @ showPath dst @ '': '' @ Error err)
              else Inr fs) = Inr fs1" and
    mk: "os_MkdirAll pf fs1 dst = Inr fs2" and
    cp: "copy_Copy pf fs2 src dst = Inr fs3"
    by (auto simp: ReplaceWithCopy_def split: sum.splits)
  have below1: "map_of fs1 k = None" if "strict_prefix dst k" for k
  proof (cases "os_Stat pf fs dst")
    case (Inr info)
    with st obtain "os_RemoveAll pf fs dst = Inr fs1" by (auto split: sum.splits)
    from os_RemoveAll_Inr(2) [OF this] that show ?thesis by (simp add: strict_prefix_def)
  next
    case (Inl err)
    with st have fs1: "fs1 = fs" and "err = NotExist"
      by (cases err; auto split: if_splits)+
    with Inl have "map_of fs dst = None"
      by (auto simp: os_Stat_def split: option.splits)
    with wellformed_parent [OF wf _ that] show ?thesis unfolding fs1 by fastforce
  qed
  have outside1: "map_of fs1 k = map_of fs k" if "\<not> prefix dst k" for k
  proof (cases "os_Stat pf fs dst")
    case (Inr info)
    with st obtain "os_RemoveAll pf fs dst = Inr fs1" by (auto split: sum.splits)
    from os_RemoveAll_Inr(2) [OF this] that show ?thesis by simp
  next
    case (Inl err)
    with st show ?thesis by (auto split: if_splits)
  qed
  note mk1 = os_MkdirAll_Inr(1) [OF mk]
  have dir2: "map_of fs2 dst = Some Dir" using os_MkdirAll_dir [OF mk] .
  have below2: "map_of fs2 k = None" if "strict_prefix dst k" for k
    using that below1 [OF that] by (auto simp: mk1 strict_prefix_def)
  have nocontent: "\<not> list_ex (\<lambda>(q, n). strict_prefix dst q) fs2"
    using below2 by (simp add: list_ex_key)
  have notfile: "map_of fs2 src \<noteq> Some (File content)" for content
  proof
    assume f: "map_of fs2 src = Some (File content)"
    with cp obtain fsx where
      x: "os_MkdirAll pf fs2 (butlast dst) = Inr fsx" and "map_of fsx dst \<noteq> Some Dir"
      by (auto simp: copy_Copy_def split: option.splits sum.splits if_splits)
    moreover have "map_of fsx dst = Some Dir"
      using dir2 by (simp add: os_MkdirAll_Inr(1) [OF x])
    ultimately show False by simp
  qed
  from cp notfile nocontent obtain fs2a where
    src2: "map_of fs2 src = Some Dir" and
    nsp: "\<not> strict_prefix src dst" and
    mk2: "os_MkdirAll pf fs2 dst = Inr fs2a" and
    fs3: "fs3 = rebase src dst (filter (\<lambda>(q, n). q \<noteq> src) fs2) @ fs2a"
    by (auto simp: copy_Copy_def split: option.splits sum.splits if_splits node.splits)
  note mk2a = os_MkdirAll_Inr(1) [OF mk2]
  have nps: "\<not> prefix src dst" using nsp ne by (auto simp: strict_prefix_def)
  have npd: "\<not> prefix dst src"
  proof
    assume "prefix dst src"
    with ne have "strict_prefix dst src" by (auto simp: strict_prefix_def)
    from below2 [OF this] src2 show False by simp
  qed
  have keep: "map_of fs2 (src @ rel) = map_of fs (src @ rel)" for rel
  proof -
    have a: "\<not> prefix (src @ rel) dst" using nps by (meson append_prefixD)
    have b: "\<not> prefix dst (src @ rel)" using nps npd prefix_of_extension by blast
    show ?thesis using a by (simp add: mk1 outside1 [OF b])
  qed
  have look: "map_of fs3 k
      = (if prefix dst k \<and> k \<noteq> dst \<and> map_of fs2 (src @ drop (length dst) k) \<noteq> None
         then map_of fs2 (src @ drop (length dst) k) else map_of fs2a k)" for k
  proof -
    have "src @ drop (length dst) k \<noteq> src \<longleftrightarrow> k \<noteq> dst" if "prefix dst k"
      using that by (auto simp: prefix_def)
    then show ?thesis
      by (auto simp: fs3 map_add_def map_of_rebase map_of_filter_key split: option.splits)
  qed
  show "subtree fs3 dst = subtree fs src"
  proof (rule ext)
    fix rel
    show "subtree fs3 dst rel = subtree fs src rel"
    proof (cases "rel = []")
      case True
      have "map_of fs2a dst = Some Dir" using os_MkdirAll_dir [OF mk2] .
      moreover have "map_of fs src = Some Dir" using keep [of "[]"] src2 by simp
      ultimately show ?thesis using True by (simp add: subtree_def look)
    next
      case False
      then have sp: "strict_prefix dst (dst @ rel)" by (simp add: strict_prefix_def)
      have "\<not> prefix (dst @ rel) dst" using False by (auto simp: prefix_def)
      then have "map_of fs2a (dst @ rel) = None"
        using below2 [OF sp] by (simp add: mk2a)
      with False show ?thesis by (auto simp: subtree_def look keep)
    qed
  qed
  show "subtree fs3 src = subtree fs src"
  proof (rule ext)
    fix rel
    have a: "\<not> prefix (src @ rel) dst" using nps by (meson append_prefixD)
    have b: "\<not> prefix dst (src @ rel)" using nps npd prefix_of_extension by blast
    show "subtree fs3 src rel = subtree fs src rel"
      using a b by (simp add: subtree_def look mk2a keep)
  qed
qed

text \<open>
  C9 (as amended). \<open>ReplaceWithCopy\<close> fails when \<open>os.Stat\<close> of the destination fails with
  an error other than "does not exist"; otherwise it removes the destination when it
  exists, creates the destination directory and copies the source into it, and the
  error of a step that fails is returned behind the text of that step. When it succeeds
  on a well-formed file system and the source and the destination are different paths,
  the tree at the destination is the tree that was at the source before the call, and
  the tree at the source is as it was.
\<close>

theorem C9_copy_replaces_the_destination:
  "case ReplaceWithCopy pf fs src dst of
     Inr fs3 \<Rightarrow>
       (\<forall>err. os_Stat pf fs dst \<noteq> Inl (OtherError err))
       \<and> (wellformed fs \<and> src \<noteq> dst
            \<longrightarrow> subtree fs3 dst = subtree fs src \<and> subtree fs3 src = subtree fs src)
   | Inl msg \<Rightarrow>
       (\<exists>err. os_Stat pf fs dst = Inl (OtherError err)
             \<and> msg = ''stat '' @ showPath dst @ '': '' @ err)
     \<or> (\<exists>info err. os_Stat pf fs dst = Inr info \<and> os_RemoveAll pf fs dst = Inl err
             \<and> msg = ''remove existing bundle: '' @ err)
     \<or> (\<exists>fs1 err. os_MkdirAll pf fs1 dst = Inl err
             \<and> msg = ''create parent directory: '' @ err)
     \<or> (\<exists>fs2 err. copy_Copy pf fs2 src dst = Inl err
             \<and> msg = ''copy '' @ showPath src @ '' -> '' @ showPath dst @ '': '' @ err)"
proof (cases "ReplaceWithCopy pf fs src dst")
  case (Inl msg)
  have "IsNotExist e \<or> (\<exists>err. e = OtherError err \<and> Error e = err)" for e
    by (cases e) auto
  with Inl show ?thesis
    by (auto simp: ReplaceWithCopy_def split: sum.splits if_splits)
next
  case (Inr fs3)
  have "os_Stat pf fs dst \<noteq> Inl (OtherError err)" for err
    using Inr by (auto simp: ReplaceWithCopy_def split: sum.splits)
  with Inr ReplaceWithCopy_Inr [OF _ _ Inr] show ?thesis by simp
qed

text \<open>Copying the package from the cache over the older copy.\<close>

theorem C9_witness:
  "wellformed disk
   \<and> ReplaceWithCopy quiet disk [''cache'', ''pkg''] [''dep'', ''pkg'']
     = Inr [([''dep'', ''pkg'', ''index.json''], File ''new''),
            ([''dep'', ''pkg'', ''types''], Dir),
            ([''dep'', ''pkg'', ''types'', ''a.raml''], File ''A''),
            ([''dep'', ''pkg''], Dir), ([], Dir), ([''cache''], Dir),
            ([''cache'', ''pkg''], Dir),
            ([''cache'', ''pkg'', ''index.json''], File ''new''),
            ([''cache'', ''pkg'', ''types''], Dir),
            ([''cache'', ''pkg'', ''types'', ''a.raml''], File ''A''),
            ([''dep''], Dir)]
   \<and> subtree [([''dep'', ''pkg'', ''index.json''], File ''new''),
            ([''dep'', ''pkg'', ''types''], Dir),
            ([''dep'', ''pkg'', ''types'', ''a.raml''], File ''A''),
            ([''dep'', ''pkg''], Dir), ([], Dir), ([''cache''], Dir),
            ([''cache'', ''pkg''], Dir),
            ([''cache'', ''pkg'', ''index.json''], File ''new''),
            ([''cache'', ''pkg'', ''types''], Dir),
            ([''cache'', ''pkg'', ''types'', ''a.raml''], File ''A''),
            ([''dep''], Dir)] [''dep'', ''pkg'']
       = subtree disk [''cache'', ''pkg'']"
proof -
  have wf: "wellformed disk"
    by (simp add: wellformed_def disk_def)
  have ne: "[''cache'', ''pkg''] \<noteq> [''dep'', ''pkg'']" by simp
  have h: "ReplaceWithCopy quiet disk [''cache'', ''pkg''] [''dep'', ''pkg'']
     = Inr [([''dep'', ''pkg'', ''index.json''], File ''new''),
            ([''dep'', ''pkg'', ''types''], Dir),
            ([''dep'', ''pkg'', ''types'', ''a.raml''], File ''A''),
            ([''dep'', ''pkg''], Dir), ([], Dir), ([''cache''], Dir),
            ([''cache'', ''pkg''], Dir),
            ([''cache'', ''pkg'', ''index.json''], File ''new''),
            ([''cache'', ''pkg'', ''types''], Dir),
            ([''cache'', ''pkg'', ''types'', ''a.raml''], File ''A''),
            ([''dep''], Dir)]"
    by (simp add: fs_defs)
  from C9_copy_replaces_the_destination
         [where pf = quiet and fs = disk and src = "[''cache'', ''pkg'']" and dst = "[''dep'', ''pkg'']"]
       wf ne
  show ?thesis unfolding h by simp
qed

text \<open>
  C9 as stated fails when the source is the destination: the call succeeds, and the
  file \<open>index.json\<close> that the source held is gone.
\<close>

theorem C9_counterexample:
  "wellformed disk
   \<and> ReplaceWithCopy quiet disk [''dep'', ''pkg''] [''dep'', ''pkg'']
     = Inr [([''dep'', ''pkg''], Dir), ([], Dir), ([''cache''], Dir),
            ([''cache'', ''pkg''], Dir),
            ([''cache'', ''pkg'', ''index.json''], File ''new''),
            ([''cache'', ''pkg'', ''types''], Dir),
            ([''cache'', ''pkg'', ''types'', ''a.raml''], File ''A''),
            ([''dep''], Dir)]
   \<and> subtree disk [''dep'', ''pkg''] [''index.json''] = Some (File ''old'')
   \<and> subtree [([''dep'', ''pkg''], Dir), ([], Dir), ([''cache''], Dir),
            ([''cache'', ''pkg''], Dir),
            ([''cache'', ''pkg'', ''index.json''], File ''new''),
            ([''cache'', ''pkg'', ''types''], Dir),
            ([''cache'', ''pkg'', ''types'', ''a.raml''], File ''A''),
            ([''dep''], Dir)] [''dep'', ''pkg''] [''index.json''] = None"
  by (simp add: fs_defs wellformed_def subtree_def)

end
